theory Spec2Isabelle
  imports Main "HOL-Library.Word"
begin

unbundle bit_operations_syntax

section \<open>Condor3XY2LatLon\_persistent: the persistent X,Y to Lon,Lat bridge\<close>

text \<open>
  The program (\<^verbatim>\<open>Condor3XY2LatLon_persistent.cpp\<close>) looks up the Condor3 installation
  directory, loads \<^verbatim>\<open>NaviCon.dll\<close>, resolves three entry points, initialises the
  library with a terrain file, prints \<^verbatim>\<open>READY\<close> and then answers one request per
  line of standard input until \<^verbatim>\<open>EXIT\<close> or the end of the input.

  The embedding makes every effect explicit. A run is a function from an environment
  (command line, registry, loadable library, standard input) to an exit status and the
  list of observable events in program order. The native library is opaque: its entry
  points are parameters that thread a state of their own, so that nothing is assumed
  about their purity. The parts of the C++ standard library the program relies on
  (string search and erase, \<^verbatim>\<open>getline\<close>, extraction and insertion of \<^verbatim>\<open>float\<close>)
  are modelled in the classic "C" locale, which the program never changes.
\<close>

subsection \<open>Characters\<close>

definition backslash :: char where
  "backslash = CHR 0x5C"

definition tab :: char where
  "tab = CHR 0x09"

definition newline :: char where
  "newline = CHR 0x0A"

definition carriage_return :: char where
  "carriage_return = CHR 0x0D"

text \<open>\<^verbatim>\<open>isspace\<close> in the "C" locale: space, \<^verbatim>\<open>\t \n \v \f \r\<close>.\<close>

definition isspace :: "char \<Rightarrow> bool" where
  "isspace c = (c \<in> set [CHR '' '', tab, newline, CHR 0x0B, CHR 0x0C, carriage_return])"

definition isdigit :: "char \<Rightarrow> bool" where
  "isdigit c = (c \<in> set ''0123456789'')"

definition digit_char :: "int \<Rightarrow> char" where
  "digit_char d = ''0123456789'' ! nat (d mod 10)"

definition digit_val :: "char \<Rightarrow> int" where
  "digit_val c = of_char c - 48"

text \<open>The value of a string of decimal digits, most significant first.\<close>

definition digits_val :: "string \<Rightarrow> int" where
  "digits_val ds = foldl (\<lambda>a c. 10 * a + digit_val c) 0 ds"

text \<open>The decimal digits of a non-negative integer, without leading zeros.\<close>

function show_nat :: "int \<Rightarrow> string" where
  "show_nat n = (if n < 10 then [digit_char n] else show_nat (n div 10) @ [digit_char (n mod 10)])"
  by pat_completeness auto
termination
  by (relation "measure nat") auto

text \<open>Exactly \<open>k\<close> decimal digits of \<open>n\<close>, padded with zeros on the left.\<close>

definition fixed_digits :: "nat \<Rightarrow> int \<Rightarrow> string" where
  "fixed_digits k n = map (\<lambda>i. digit_char ((n div 10 ^ i) mod 10)) (rev [0..<k])"

subsection \<open>The type \<^verbatim>\<open>float\<close>: IEEE 754 binary32\<close>

text \<open>
  A \<^verbatim>\<open>float\<close> is its 32-bit pattern: bit 31 is the sign, bits 30..23 the biased
  exponent, bits 22..0 the fraction. A finite pattern denotes
  \<open>\<plusminus> float_mantissa * 2 ^ float_exponent\<close>; biased exponent 255 is an infinity or a NaN.
\<close>

type_synonym float = "32 word"

definition float_negative :: "float \<Rightarrow> bool" where
  "float_negative w = bit w 31"

definition biased_exponent :: "float \<Rightarrow> int" where
  "biased_exponent w = uint (take_bit 8 (drop_bit 23 w))"

definition fraction :: "float \<Rightarrow> int" where
  "fraction w = uint (take_bit 23 w)"

definition isfinite :: "float \<Rightarrow> bool" where
  "isfinite w = (biased_exponent w \<noteq> 255)"

definition float_mantissa :: "float \<Rightarrow> int" where
  "float_mantissa w = (if biased_exponent w = 0 then fraction w else 2 ^ 23 + fraction w)"

definition float_exponent :: "float \<Rightarrow> int" where
  "float_exponent w = (if biased_exponent w = 0 then - 149 else biased_exponent w - 150)"

definition encode_float :: "bool \<Rightarrow> int \<Rightarrow> int \<Rightarrow> float" where
  "encode_float neg m e =
     word_of_int ((if neg then 2 ^ 31 else 0) +
       (if m < 2 ^ 23 then m else (e + 150) * 2 ^ 23 + (m - 2 ^ 23)))"

text \<open>The number of bits of a positive integer: \<open>2 ^ (bit_length n - 1) \<le> n < 2 ^ bit_length n\<close>.\<close>

function bit_length :: "int \<Rightarrow> int" where
  "bit_length n = (if n \<le> 0 then 0 else 1 + bit_length (n div 2))"
  by pat_completeness auto
termination
  by (relation "measure nat") auto

text \<open>The quotient \<open>n / d\<close> rounded to the nearest integer, ties to the even one.\<close>

definition round_half_even :: "int \<Rightarrow> int \<Rightarrow> int" where
  "round_half_even n d =
     (let q = n div d; r = n mod d in
      if 2 * r < d then q
      else if d < 2 * r then q + 1
      else if even q then q else q + 1)"

text \<open>The fraction \<open>(n / d) / 2 ^ e\<close> as numerator and denominator.\<close>

definition scale2 :: "int \<Rightarrow> int \<Rightarrow> int \<Rightarrow> int \<times> int" where
  "scale2 n d e = (if 0 \<le> e then (n, d * 2 ^ nat e) else (n * 2 ^ nat (- e), d))"

text \<open>
  The binary32 value nearest to \<open>\<plusminus> n / d\<close> (round to nearest, ties to even, gradual
  underflow). \<open>None\<close> when the magnitude is beyond the largest finite \<^verbatim>\<open>float\<close>: the
  extraction operator then stores the largest value and sets \<^verbatim>\<open>failbit\<close>.
\<close>

definition round_to_float :: "bool \<Rightarrow> int \<Rightarrow> int \<Rightarrow> float option" where
  "round_to_float neg n d =
     (if n = 0 then Some (encode_float neg 0 (- 149))
      else
        let e0 = bit_length n - bit_length d - 24;
            e1 = (case scale2 n d (e0 + 1) of (a, b) \<Rightarrow> if 2 ^ 23 \<le> a div b then e0 + 1 else e0);
            e = max e1 (- 149);
            m = (case scale2 n d e of (a, b) \<Rightarrow> round_half_even a b);
            e' = (if m = 2 ^ 24 then e + 1 else e);
            m' = (if m = 2 ^ 24 then 2 ^ 23 else m)
        in if 104 < e' then None else Some (encode_float neg m' e'))"

text \<open>
  The numeric conversion of a complete decimal field: sign, integer digits, fraction
  digits and decimal exponent.
\<close>

definition strtof :: "bool \<Rightarrow> string \<Rightarrow> string \<Rightarrow> int \<Rightarrow> float option" where
  "strtof neg ip fp ex =
     (let n = digits_val (ip @ fp); e = ex - int (length fp) in
      if 0 \<le> e then round_to_float neg (n * 10 ^ nat e) 1
      else round_to_float neg n (10 ^ nat (- e)))"

subsection \<open>\<^verbatim>\<open>operator>>(float&)\<close> on an input string stream\<close>

text \<open>
  The stream is the list of characters not yet consumed. An extraction skips leading
  white space, accumulates the longest decimal floating-point field
  (\<^verbatim>\<open>[+-] digits [. digits] [(e|E) [+-] digits]\<close>, at least one mantissa digit) and
  converts it. \<open>None\<close> is \<^verbatim>\<open>failbit\<close>: no character, no mantissa digit, an exponent
  letter without exponent digits, or a value out of range. A failed stream stays failed,
  so the characters consumed by a failed extraction do not matter.
\<close>

definition get_sign :: "string \<Rightarrow> bool \<times> string" where
  "get_sign s =
     (case s of
        [] \<Rightarrow> (False, [])
      | c # r \<Rightarrow> if c = CHR ''-'' then (True, r) else if c = CHR ''+'' then (False, r) else (False, s))"

definition get_fraction :: "string \<Rightarrow> string \<times> string" where
  "get_fraction s =
     (case s of
        [] \<Rightarrow> ([], [])
      | c # r \<Rightarrow> if c = CHR ''.'' then (takeWhile isdigit r, dropWhile isdigit r) else ([], s))"

definition get_exponent :: "string \<Rightarrow> (int \<times> string) option" where
  "get_exponent s =
     (case s of
        [] \<Rightarrow> Some (0, [])
      | c # r \<Rightarrow>
          if c = CHR ''e'' \<or> c = CHR ''E'' then
            (case get_sign r of (neg, r') \<Rightarrow>
               if takeWhile isdigit r' = [] then None
               else Some ((if neg then - 1 else 1) * digits_val (takeWhile isdigit r'),
                          dropWhile isdigit r'))
          else Some (0, s))"

definition get_float :: "string \<Rightarrow> (float \<times> string) option" where
  "get_float s =
     (case get_sign (dropWhile isspace s) of (neg, s1) \<Rightarrow>
      case get_fraction (dropWhile isdigit s1) of (fp, s3) \<Rightarrow>
        if takeWhile isdigit s1 = [] \<and> fp = [] then None
        else (case get_exponent s3 of
                None \<Rightarrow> None
              | Some (ex, s4) \<Rightarrow>
                  (case strtof neg (takeWhile isdigit s1) fp ex of
                     None \<Rightarrow> None
                   | Some v \<Rightarrow> Some (v, s4))))"

subsection \<open>\<^verbatim>\<open>operator<<(float)\<close> under \<^verbatim>\<open>std::fixed\<close> and \<^verbatim>\<open>std::setprecision\<close>\<close>

text \<open>
  A finite value is printed exactly rounded to \<open>p\<close> digits after the decimal point. An
  infinity or a NaN is printed as a word. The rounding of an exact tie and the spelling
  of a NaN vary between C libraries; no result below depends on either.
\<close>

definition put_fixed :: "nat \<Rightarrow> float \<Rightarrow> string" where
  "put_fixed p w =
     (if float_negative w then ''-'' else []) @
     (if isfinite w then
        (case scale2 (float_mantissa w * 10 ^ p) 1 (- float_exponent w) of (a, b) \<Rightarrow>
           show_nat (round_half_even a b div 10 ^ p) @
           (if p = 0 then [] else ''.'' @ fixed_digits p (round_half_even a b mod 10 ^ p)))
      else if fraction w = 0 then ''inf'' else ''nan'')"

subsection \<open>\<^verbatim>\<open>std::string\<close> members and \<^verbatim>\<open>std::getline\<close>\<close>

text \<open>
  A search returns \<open>None\<close> for \<^verbatim>\<open>npos\<close>. \<^verbatim>\<open>s.find(pat)\<close> is the first index at which
  \<open>pat\<close> occurs; \<^verbatim>\<open>find_first_not_of\<close> and \<^verbatim>\<open>find_last_not_of\<close> are the first and the
  last index of a character outside the given set.
\<close>

fun find_str :: "string \<Rightarrow> string \<Rightarrow> nat option" where
  "find_str [] pat = (if pat = [] then Some 0 else None)"
| "find_str (c # cs) pat =
     (if take (length pat) (c # cs) = pat then Some 0
      else map_option Suc (find_str cs pat))"

fun find_first_not_of :: "string \<Rightarrow> string \<Rightarrow> nat option" where
  "find_first_not_of [] cs = None"
| "find_first_not_of (c # s) cs =
     (if c \<in> set cs then map_option Suc (find_first_not_of s cs) else Some 0)"

fun find_last_not_of :: "string \<Rightarrow> string \<Rightarrow> nat option" where
  "find_last_not_of [] cs = None"
| "find_last_not_of (c # s) cs =
     (case find_last_not_of s cs of
        Some i \<Rightarrow> Some (Suc i)
      | None \<Rightarrow> if c \<in> set cs then None else Some 0)"

text \<open>
  \<^verbatim>\<open>s.erase(pos, count)\<close> removes \<open>min count (size - pos)\<close> characters from \<open>pos\<close> on;
  the count \<open>None\<close> is \<^verbatim>\<open>npos\<close> (the default), which removes the whole tail. Both calls
  of the program have \<open>pos \<le> size\<close>, so \<^verbatim>\<open>out_of_range\<close> is never thrown.
\<close>

definition erase :: "string \<Rightarrow> nat \<Rightarrow> nat option \<Rightarrow> string" where
  "erase s pos count =
     (case count of
        None \<Rightarrow> take pos s
      | Some n \<Rightarrow> take pos s @ drop (pos + n) s)"

definition trim_chars :: string where
  "trim_chars = [CHR '' '', tab, carriage_return, newline]"

text \<open>
  The two statements under "Trim whitespace". In the second, \<^verbatim>\<open>npos + 1\<close> wraps
  around to 0.
\<close>

definition trim :: "string \<Rightarrow> string" where
  "trim line =
     (let line1 = erase line 0 (find_first_not_of line trim_chars) in
      erase line1 (case find_last_not_of line1 trim_chars of None \<Rightarrow> 0 | Some i \<Rightarrow> i + 1) None)"

text \<open>
  \<^verbatim>\<open>std::getline(std::cin, line)\<close> on the unread input: \<open>None\<close> when nothing is left (the
  loop condition is then false), otherwise the characters up to the next newline, which
  is consumed and not stored. A last line without a newline is still delivered.
\<close>

definition getline :: "string \<Rightarrow> (string \<times> string) option" where
  "getline inp =
     (if inp = [] then None
      else Some (takeWhile (\<lambda>c. c \<noteq> newline) inp, drop 1 (dropWhile (\<lambda>c. c \<noteq> newline) inp)))"

subsection \<open>The native library, the environment and the observable events\<close>

text \<open>
  The three entry points of \<^verbatim>\<open>NaviCon.dll\<close>, typed as the program casts them
  (\<^verbatim>\<open>f_funci\<close>, \<^verbatim>\<open>f_funcf\<close>). Each takes and returns the private state \<open>'s\<close> of the
  library. A field is \<open>None\<close> when \<^verbatim>\<open>GetProcAddress\<close> returns a null pointer.
\<close>

type_synonym 's f_funci = "string \<Rightarrow> 's \<Rightarrow> int \<times> 's"

type_synonym 's f_funcf = "float \<Rightarrow> float \<Rightarrow> 's \<Rightarrow> float \<times> 's"

record 's module =
  NaviConInit :: "'s f_funci option"
  XYToLon :: "'s f_funcf option"
  XYToLat :: "'s f_funcf option"

text \<open>
  What a run depends on: the argument vector (\<open>argc\<close> is its length), the registry
  (\<^verbatim>\<open>RegGetValueA\<close> under \<^verbatim>\<open>HKEY_CURRENT_USER\<close> with sub-key and value name, giving the
  status code and the text stored in the buffer), the loader (\<open>None\<close> for a null module
  handle), the state of the library when it has been loaded, and standard input.
\<close>

record 's env =
  argv :: "string list"
  RegGetValueA :: "string \<Rightarrow> string \<Rightarrow> nat \<times> string"
  LoadLibraryA :: "string \<Rightarrow> 's module option"
  loaded_state :: 's
  cin :: string

datatype event =
    Cerr string
  | Cout string
  | Getline "string option"
  | Load_call string
  | Init_call string
  | Lon_call float float
  | Lat_call float float

record 's result =
  exit_status :: nat
  trace :: "event list"
  unread :: string
  final_state :: 's

definition EXIT_SUCCESS :: nat where
  "EXIT_SUCCESS = 0"

definition EXIT_FAILURE :: nat where
  "EXIT_FAILURE = 1"

definition ERROR_SUCCESS :: nat where
  "ERROR_SUCCESS = 0"

text \<open>The lines written to standard output, and the lines written to standard error.\<close>

fun couts :: "event list \<Rightarrow> string list" where
  "couts [] = []"
| "couts (Cout l # es) = l # couts es"
| "couts (e # es) = couts es"

fun cerrs :: "event list \<Rightarrow> string list" where
  "cerrs [] = []"
| "cerrs (Cerr l # es) = l # cerrs es"
| "cerrs (e # es) = cerrs es"

fun is_read :: "event \<Rightarrow> bool" where
  "is_read (Getline l) = True"
| "is_read e = False"

fun is_native_call :: "event \<Rightarrow> bool" where
  "is_native_call (Init_call p) = True"
| "is_native_call (Lon_call x y) = True"
| "is_native_call (Lat_call x y) = True"
| "is_native_call e = False"

subsection \<open>The session loop\<close>

text \<open>\<^verbatim>\<open>iss >> x >> y\<close> on a fresh string stream over the line.\<close>

definition extract_xy :: "string \<Rightarrow> (float \<times> float) option" where
  "extract_xy line =
     (case get_float line of
        None \<Rightarrow> None
      | Some (x, rest) \<Rightarrow>
          (case get_float rest of
             None \<Rightarrow> None
           | Some (y, rest') \<Rightarrow> Some (x, y)))"

datatype flow = Continue | Break

text \<open>
  The body of the \<^verbatim>\<open>while\<close> loop for one line that \<^verbatim>\<open>getline\<close> has delivered: the way
  the body is left, the events it causes and the state of the library afterwards.
\<close>

definition loop_body :: "'s f_funcf \<Rightarrow> 's f_funcf \<Rightarrow> 's \<Rightarrow> string \<Rightarrow> flow \<times> event list \<times> 's" where
  "loop_body f_xy2lon f_xy2lat s raw =
     (let line = trim raw in
      if line = [] then (Continue, [], s)
      else if line = ''EXIT'' then (Break, [], s)
      else
        (case extract_xy line of
           None \<Rightarrow> (Continue, [Cout ''ERROR: Invalid input format''], s)
         | Some (x, y) \<Rightarrow>
             (case f_xy2lon x y s of (lon, s1) \<Rightarrow>
              case f_xy2lat x y s1 of (lat, s2) \<Rightarrow>
                (Continue,
                 [Lon_call x y, Lat_call x y, Cout (put_fixed 8 lon @ '','' @ put_fixed 8 lat)],
                 s2))))"

text \<open>
  The \<^verbatim>\<open>while (std::getline(std::cin, line))\<close> loop on the unread input: the events,
  the state of the library when the loop is left and the input left unread.
\<close>

function session_loop :: "'s f_funcf \<Rightarrow> 's f_funcf \<Rightarrow> 's \<Rightarrow> string \<Rightarrow> event list \<times> 's \<times> string" where
  "session_loop f_xy2lon f_xy2lat s inp =
     (case getline inp of
        None \<Rightarrow> ([Getline None], s, inp)
      | Some (raw, rest) \<Rightarrow>
          (case loop_body f_xy2lon f_xy2lat s raw of
             (Break, evs, s') \<Rightarrow> (Getline (Some raw) # evs, s', rest)
           | (Continue, evs, s') \<Rightarrow>
               (case session_loop f_xy2lon f_xy2lat s' rest of
                  (evs', s'', rest') \<Rightarrow> (Getline (Some raw) # evs @ evs', s'', rest'))))"
  by pat_completeness auto
termination
proof (relation "measure (\<lambda>(f, g, s, inp). length inp)")
  show "wf (measure (\<lambda>(f, g, s, inp). length inp))"
    by simp
next
  fix f_xy2lon f_xy2lat :: "'s f_funcf" and s s' :: 's and inp raw rest :: string
    and x2 :: "string \<times> string" and x :: "flow \<times> event list \<times> 's"
    and y :: "event list \<times> 's" and evs :: "event list" and x1 :: flow
  assume a: "getline inp = Some x2" and b: "(raw, rest) = x2"
  define d where "d = dropWhile (\<lambda>c. c \<noteq> newline) inp"
  from a b have ne: "0 < length inp" and r: "length rest = length d - 1"
    by (auto simp: getline_def d_def split: if_splits)
  have "length d \<le> length inp"
    unfolding d_def by (rule length_dropWhile_le)
  with ne r have "length rest < length inp"
    by arith
  then show "((f_xy2lon, f_xy2lat, s', rest), (f_xy2lon, f_xy2lat, s, inp))
             \<in> measure (\<lambda>(f, g, s, inp). length inp)"
    by simp
qed

subsection \<open>\<^verbatim>\<open>main\<close>\<close>

definition usage :: "event list" where
  "usage =
     [Cerr ''Usage: Condor3XY2LatLon_persistent.exe <scenery_or_trn_path>'',
      Cerr ''Example: Condor3XY2LatLon_persistent.exe AA3'',
      Cerr (''Or: Condor3XY2LatLon_persistent.exe C:'' @ [backslash] @ ''path'' @ [backslash] @
            ''to'' @ [backslash] @ ''AA3.trn'')]"

definition root_dir :: "'s env \<Rightarrow> string" where
  "root_dir E = snd (RegGetValueA E (''Software'' @ [backslash] @ ''Condor3'') ''InstallDir'')"

definition dll_path :: "'s env \<Rightarrow> string" where
  "dll_path E = root_dir E @ [backslash] @ ''NaviCon.dll''"

definition is_trn_path :: "string \<Rightarrow> bool" where
  "is_trn_path input1 =
     (find_str input1 ''.trn'' \<noteq> None \<or> find_str input1 [backslash] \<noteq> None \<or>
      find_str input1 ''/'' \<noteq> None)"

definition trn_name :: "'s env \<Rightarrow> string" where
  "trn_name E =
     (let input1 = argv E ! 1 in
      if is_trn_path input1 then input1
      else root_dir E @ [backslash] @ ''Landscapes'' @ [backslash] @ input1 @ [backslash] @
           input1 @ ''.trn'')"

definition failure :: "'s env \<Rightarrow> 's \<Rightarrow> event list \<Rightarrow> 's result" where
  "failure E s evs = \<lparr>exit_status = EXIT_FAILURE, trace = evs, unread = cin E, final_state = s\<rparr>"

definition main :: "'s env \<Rightarrow> 's result" where
  "main E =
     (if length (argv E) \<noteq> 2 then failure E (loaded_state E) usage
      else if fst (RegGetValueA E (''Software'' @ [backslash] @ ''Condor3'') ''InstallDir'') \<noteq> ERROR_SUCCESS
      then failure E (loaded_state E)
             [Cerr ''ERROR: Could not find Condor3 installation directory in registry'']
      else
        (case LoadLibraryA E (dll_path E) of
           None \<Rightarrow>
             failure E (loaded_state E)
               [Load_call (dll_path E), Cerr (''ERROR: Could not load '' @ dll_path E)]
         | Some hGetProcIDDLL \<Rightarrow>
             (case (NaviConInit hGetProcIDDLL, XYToLon hGetProcIDDLL, XYToLat hGetProcIDDLL) of
                (Some f_init, Some f_xy2lon, Some f_xy2lat) \<Rightarrow>
                  (case f_init (trn_name E) (loaded_state E) of (init_ret, s) \<Rightarrow>
                     if init_ret = 0 then
                       failure E s
                         [Load_call (dll_path E), Init_call (trn_name E),
                          Cerr (''ERROR: NaviConInit failed for '' @ trn_name E)]
                     else
                       (case session_loop f_xy2lon f_xy2lat s (cin E) of (evs, s', rest) \<Rightarrow>
                          \<lparr>exit_status = EXIT_SUCCESS,
                           trace = [Load_call (dll_path E), Init_call (trn_name E), Cout ''READY''] @ evs,
                           unread = rest,
                           final_state = s'\<rparr>))
              | _ \<Rightarrow>
                  failure E (loaded_state E)
                    [Load_call (dll_path E),
                     Cerr ''ERROR: Could not get NaviCon.dll function pointers''])))"

subsection \<open>Notions used to state the properties\<close>

text \<open>
  The startup fails when the argument count is wrong, the installation directory is not
  found in the registry, the library does not load, one of the three entry points is
  missing, or the initialiser returns zero.
\<close>

definition startup_failure :: "'s env \<Rightarrow> bool" where
  "startup_failure E =
     (length (argv E) \<noteq> 2 \<or>
      fst (RegGetValueA E (''Software'' @ [backslash] @ ''Condor3'') ''InstallDir'') \<noteq> ERROR_SUCCESS \<or>
      (case LoadLibraryA E (dll_path E) of
         None \<Rightarrow> True
       | Some h \<Rightarrow>
           XYToLon h = None \<or> XYToLat h = None \<or>
           (case NaviConInit h of
              None \<Rightarrow> True
            | Some f_init \<Rightarrow> fst (f_init (trn_name E) (loaded_state E)) = 0)))"

text \<open>A line is blank when it has only characters that the program trims.\<close>

definition blank :: "string \<Rightarrow> bool" where
  "blank l = list_all (\<lambda>c. c \<in> set trim_chars) l"

text \<open>Standard input made of the given lines, each ended by a newline.\<close>

definition unlines :: "string list \<Rightarrow> string" where
  "unlines ls = concat (map (\<lambda>l. l @ [newline]) ls)"

text \<open>The lines that a trace shows as read from standard input.\<close>

fun reads :: "event list \<Rightarrow> string list" where
  "reads [] = []"
| "reads (Getline (Some l) # es) = l # reads es"
| "reads (e # es) = reads es"

text \<open>
  A field in fixed notation with \<open>p\<close> digits after the point: an optional minus sign, at
  least one digit, a point, and exactly \<open>p\<close> digits.
\<close>

definition is_fixed :: "nat \<Rightarrow> string \<Rightarrow> bool" where
  "is_fixed p str =
     (let body = (case str of [] \<Rightarrow> [] | c # r \<Rightarrow> if c = CHR ''-'' then r else str) in
      takeWhile isdigit body \<noteq> [] \<and>
      (case dropWhile isdigit body of
         [] \<Rightarrow> False
       | c # fp \<Rightarrow> c = CHR ''.'' \<and> length fp = p \<and> list_all isdigit fp))"

text \<open>
  The tokens of a line are its maximal runs of characters other than white space. A
  token is a floating-point token when the extraction consumes all of it. This is the
  reading of a request as "exactly two floating-point tokens".
\<close>

fun tokens :: "string \<Rightarrow> string list" where
  "tokens [] = []"
| "tokens [c] = (if isspace c then [] else [[c]])"
| "tokens (c # d # cs) =
     (if isspace c then tokens (d # cs)
      else if isspace d then [c] # tokens (d # cs)
      else (case tokens (d # cs) of [] \<Rightarrow> [[c]] | t # ts \<Rightarrow> (c # t) # ts))"

definition float_token :: "string \<Rightarrow> bool" where
  "float_token t = (case get_float t of None \<Rightarrow> False | Some (v, rest) \<Rightarrow> rest = [])"

definition two_float_tokens :: "string \<Rightarrow> bool" where
  "two_float_tokens line =
     (case tokens line of [a, b] \<Rightarrow> float_token a \<and> float_token b | _ \<Rightarrow> False)"

text \<open>
  The output that the spec's session gives for a list of request lines, from the state
  \<open>s\<close> of the library: nothing for a blank line, the end at \<^verbatim>\<open>EXIT\<close>, one diagnostic for
  a malformed line, one result line for a conversion.
\<close>

fun responses :: "'s f_funcf \<Rightarrow> 's f_funcf \<Rightarrow> 's \<Rightarrow> string list \<Rightarrow> string list" where
  "responses f_xy2lon f_xy2lat s [] = []"
| "responses f_xy2lon f_xy2lat s (l # ls) =
     (if blank l then responses f_xy2lon f_xy2lat s ls
      else if trim l = ''EXIT'' then []
      else (case extract_xy (trim l) of
              None \<Rightarrow> ''ERROR: Invalid input format'' # responses f_xy2lon f_xy2lat s ls
            | Some (x, y) \<Rightarrow>
                (put_fixed 8 (fst (f_xy2lon x y s)) @ '','' @
                 put_fixed 8 (fst (f_xy2lat x y (snd (f_xy2lon x y s))))) #
                responses f_xy2lon f_xy2lat (snd (f_xy2lat x y (snd (f_xy2lon x y s)))) ls))"

text \<open>An entry point is pure when its result does not depend on the state of the library.\<close>

definition pure_entry :: "'s f_funcf \<Rightarrow> bool" where
  "pure_entry f = (\<forall>x y s s'. fst (f x y s) = fst (f x y s'))"

text \<open>
  The entry points and the state of the library with which a run enters the session
  loop; \<open>None\<close> when the startup fails.
\<close>

definition session_entry :: "'s env \<Rightarrow> ('s f_funcf \<times> 's f_funcf \<times> 's) option" where
  "session_entry E =
     (if startup_failure E then None
      else (case LoadLibraryA E (dll_path E) of
              None \<Rightarrow> None
            | Some h \<Rightarrow>
                (case (NaviConInit h, XYToLon h, XYToLat h) of
                   (Some f_init, Some f_xy2lon, Some f_xy2lat) \<Rightarrow>
                     Some (f_xy2lon, f_xy2lat, snd (f_init (trn_name E) (loaded_state E)))
                 | _ \<Rightarrow> None)))"

subsection \<open>A library to run the program on\<close>

text \<open>
  A stand-in for \<^verbatim>\<open>NaviCon.dll\<close> whose state counts the conversion calls:
  the initialiser accepts every terrain file, the longitude is \<open>x\<close> and the latitude is
  \<open>y\<close>. A second pair of entry points returns the infinity for every request.
\<close>

definition echo_init :: "nat f_funci" where
  "echo_init path s = (1, s)"

definition echo_lon :: "nat f_funcf" where
  "echo_lon x y s = (x, Suc s)"

definition echo_lat :: "nat f_funcf" where
  "echo_lat x y s = (y, Suc s)"

definition inf_lon :: "nat f_funcf" where
  "inf_lon x y s = (0x7F800000, Suc s)"

definition inf_lat :: "nat f_funcf" where
  "inf_lat x y s = (0x7F800000, Suc s)"

definition echo_module :: "nat module" where
  "echo_module = \<lparr>NaviConInit = Some echo_init, XYToLon = Some echo_lon, XYToLat = Some echo_lat\<rparr>"

definition echo_env :: "string list \<Rightarrow> string \<Rightarrow> nat env" where
  "echo_env args inp =
     \<lparr>argv = args,
      RegGetValueA = (\<lambda>key name. (0, ''C:'' @ [backslash] @ ''Condor3'')),
      LoadLibraryA = (\<lambda>path. Some echo_module),
      loaded_state = 0,
      cin = inp\<rparr>"

section \<open>Properties\<close>

declare session_loop.simps [simp del]

subsection \<open>Trimming\<close>

lemma erase_first_not_of:
  "erase line 0 (find_first_not_of line cs) = dropWhile (\<lambda>c. c \<in> set cs) line"
proof (induction line)
  case Nil
  show ?case by (simp add: erase_def)
next
  case (Cons c line)
  then show ?case
    by (cases "find_first_not_of line cs") (auto simp: erase_def)
qed

lemma find_last_not_of_None:
  "find_last_not_of line cs = None \<longleftrightarrow> (\<forall>c\<in>set line. c \<in> set cs)"
  by (induction line) (auto split: option.splits)

lemma erase_last_not_of:
  "erase line (case find_last_not_of line cs of None \<Rightarrow> 0 | Some i \<Rightarrow> i + 1) None
   = rev (dropWhile (\<lambda>c. c \<in> set cs) (rev line))"
proof (induction line)
  case Nil
  show ?case by (simp add: erase_def)
next
  case (Cons c line)
  show ?case
  proof (cases "find_last_not_of line cs")
    case None
    then have all: "\<forall>c\<in>set (rev line). c \<in> set cs"
      by (simp add: find_last_not_of_None)
    have "dropWhile (\<lambda>c. c \<in> set cs) (rev line @ [c]) = dropWhile (\<lambda>c. c \<in> set cs) [c]"
      by (rule dropWhile_append2) (use all in blast)
    then have "rev (dropWhile (\<lambda>c. c \<in> set cs) (rev (c # line))) = (if c \<in> set cs then [] else [c])"
      by simp
    moreover have "erase (c # line) (case find_last_not_of (c # line) cs of None \<Rightarrow> 0 | Some i \<Rightarrow> i + 1) None
                   = (if c \<in> set cs then [] else [c])"
      using None by (simp add: erase_def)
    ultimately show ?thesis by simp
  next
    case (Some i)
    then have "\<not> (\<forall>c\<in>set line. c \<in> set cs)"
      using find_last_not_of_None [of line cs] by simp
    then have "dropWhile (\<lambda>c. c \<in> set cs) (rev line @ [c])
               = dropWhile (\<lambda>c. c \<in> set cs) (rev line) @ [c]"
      by (auto simp: dropWhile_append1)
    with Some Cons show ?thesis
      by (simp add: erase_def)
  qed
qed

lemma trim_eq:
  "trim line = rev (dropWhile (\<lambda>c. c \<in> set trim_chars) (rev (dropWhile (\<lambda>c. c \<in> set trim_chars) line)))"
  by (simp add: trim_def Let_def erase_first_not_of erase_last_not_of)

lemma trim_empty_iff: "trim line = [] \<longleftrightarrow> blank line"
proof -
  have "trim line = [] \<longleftrightarrow> (\<forall>c\<in>set (dropWhile (\<lambda>c. c \<in> set trim_chars) line). c \<in> set trim_chars)"
    by (simp add: trim_eq dropWhile_eq_Nil_conv)
  also have "\<dots> \<longleftrightarrow> (\<forall>c\<in>set line. c \<in> set trim_chars)"
  proof
    assume a: "\<forall>c\<in>set (dropWhile (\<lambda>c. c \<in> set trim_chars) line). c \<in> set trim_chars"
    show "\<forall>c\<in>set line. c \<in> set trim_chars"
    proof (cases "dropWhile (\<lambda>c. c \<in> set trim_chars) line")
      case Nil
      then show ?thesis by (simp add: dropWhile_eq_Nil_conv)
    next
      case (Cons d ds)
      then have "d \<notin> set trim_chars"
        using hd_dropWhile [of "\<lambda>c. c \<in> set trim_chars" line] by auto
      with a Cons show ?thesis by simp
    qed
  next
    assume "\<forall>c\<in>set line. c \<in> set trim_chars"
    then show "\<forall>c\<in>set (dropWhile (\<lambda>c. c \<in> set trim_chars) line). c \<in> set trim_chars"
      using set_dropWhileD by fastforce
  qed
  finally show ?thesis by (simp add: blank_def list_all_iff)
qed

subsection \<open>Extraction\<close>

lemma get_float_no_number:
  assumes "dropWhile isspace s = c # r" and "c \<notin> set ''+-.0123456789''"
  shows "get_float s = None"
proof -
  from assms(2) have nd: "\<not> isdigit c" and ns: "c \<noteq> CHR ''-''" "c \<noteq> CHR ''+''" and np: "c \<noteq> CHR ''.''"
    by (auto simp: isdigit_def)
  from ns assms(1) have "get_sign (dropWhile isspace s) = (False, c # r)"
    by (simp add: get_sign_def)
  moreover from np nd have "get_fraction (dropWhile isdigit (c # r)) = ([], c # r)"
    by (simp add: get_fraction_def)
  ultimately show ?thesis using nd
    by (simp add: get_float_def)
qed

lemma get_float_empty:
  assumes "dropWhile isspace s = []"
  shows "get_float s = None"
  unfolding get_float_def assms by (simp add: get_sign_def get_fraction_def)

lemma extract_xy_no_number:
  assumes "dropWhile isspace s = c # r" and "c \<notin> set ''+-.0123456789''"
  shows "extract_xy s = None"
  using get_float_no_number [OF assms] by (simp add: extract_xy_def)

subsection \<open>The loop body, case by case\<close>

lemma loop_body_blank:
  "trim raw = [] \<Longrightarrow> loop_body f g s raw = (Continue, [], s)"
  by (simp add: loop_body_def)

lemma loop_body_exit:
  "trim raw = ''EXIT'' \<Longrightarrow> loop_body f g s raw = (Break, [], s)"
  by (simp add: loop_body_def)

lemma loop_body_malformed:
  "trim raw \<noteq> [] \<Longrightarrow> trim raw \<noteq> ''EXIT'' \<Longrightarrow> extract_xy (trim raw) = None \<Longrightarrow>
   loop_body f g s raw = (Continue, [Cout ''ERROR: Invalid input format''], s)"
  by (simp add: loop_body_def)

lemma loop_body_convert:
  "trim raw \<noteq> [] \<Longrightarrow> trim raw \<noteq> ''EXIT'' \<Longrightarrow> extract_xy (trim raw) = Some (x, y) \<Longrightarrow>
   loop_body f g s raw =
     (Continue,
      [Lon_call x y, Lat_call x y,
       Cout (put_fixed 8 (fst (f x y s)) @ '','' @ put_fixed 8 (fst (g x y (snd (f x y s)))))],
      snd (g x y (snd (f x y s))))"
  by (simp add: loop_body_def split: prod.splits)

lemma loop_body_break_iff:
  "fst (loop_body f g s raw) = Break \<longleftrightarrow> trim raw = ''EXIT''"
  by (auto simp: loop_body_def Let_def split: option.splits prod.splits)

lemma extract_xy_EXIT: "extract_xy ''EXIT'' = None"
  by code_simp

lemma extract_xy_Nil: "extract_xy [] = None"
  by (simp add: extract_xy_def get_float_empty)

subsection \<open>One step of the session\<close>

lemma getline_line:
  assumes "newline \<notin> set raw"
  shows "getline (raw @ newline # rest) = Some (raw, rest)"
proof -
  have "takeWhile (\<lambda>c. c \<noteq> newline) (raw @ newline # rest) = raw @ takeWhile (\<lambda>c. c \<noteq> newline) (newline # rest)"
    by (rule takeWhile_append2) (use assms in blast)
  moreover have "dropWhile (\<lambda>c. c \<noteq> newline) (raw @ newline # rest) = dropWhile (\<lambda>c. c \<noteq> newline) (newline # rest)"
    by (rule dropWhile_append2) (use assms in blast)
  ultimately show ?thesis
    by (simp add: getline_def)
qed

lemma session_loop_eof: "session_loop f g s [] = ([Getline None], s, [])"
  by (simp add: session_loop.simps getline_def)

lemma session_loop_step:
  assumes "getline inp = Some (raw, rest)"
  shows "session_loop f g s inp =
     (if trim raw = ''EXIT'' then ([Getline (Some raw)], s, rest)
      else (Getline (Some raw) # fst (snd (loop_body f g s raw)) @
              fst (session_loop f g (snd (snd (loop_body f g s raw))) rest),
            snd (session_loop f g (snd (snd (loop_body f g s raw))) rest)))"
proof (cases "trim raw = ''EXIT''")
  case True
  with assms show ?thesis
    by (subst session_loop.simps) (simp add: loop_body_exit)
next
  case False
  then have "fst (loop_body f g s raw) = Continue"
    using loop_body_break_iff [of f g s raw] by (cases "fst (loop_body f g s raw)") auto
  then obtain evs s' where "loop_body f g s raw = (Continue, evs, s')"
    by (cases "loop_body f g s raw") auto
  with assms False show ?thesis
    by (subst session_loop.simps) (simp split: prod.splits)
qed

lemma session_loop_line:
  assumes "newline \<notin> set raw" and "trim raw \<noteq> ''EXIT''"
  shows "session_loop f g s (raw @ newline # rest) =
     (Getline (Some raw) # fst (snd (loop_body f g s raw)) @
        fst (session_loop f g (snd (snd (loop_body f g s raw))) rest),
      snd (session_loop f g (snd (snd (loop_body f g s raw))) rest))"
  using session_loop_step [OF getline_line [OF assms(1)], of f g s rest] assms(2) by simp

text \<open>
  C8. When a line is malformed (not blank, not \<^verbatim>\<open>EXIT\<close>, and two values cannot be
  extracted), neither conversion function is called for it, its only effect is the line
  \<^verbatim>\<open>ERROR: Invalid input format\<close>, the state of the library is unchanged, and the rest
  of the session is the session that the remaining input gives from that same state.
\<close>

theorem malformed_line_isolated:
  assumes "newline \<notin> set raw" and "trim raw \<noteq> []" and "trim raw \<noteq> ''EXIT''"
    and "extract_xy (trim raw) = None"
  shows "loop_body f_xy2lon f_xy2lat s raw = (Continue, [Cout ''ERROR: Invalid input format''], s) \<and>
         \<not> list_ex is_native_call (fst (snd (loop_body f_xy2lon f_xy2lat s raw))) \<and>
         session_loop f_xy2lon f_xy2lat s (raw @ newline # rest) =
           (Getline (Some raw) # Cout ''ERROR: Invalid input format'' #
              fst (session_loop f_xy2lon f_xy2lat s rest),
            snd (session_loop f_xy2lon f_xy2lat s rest))"
proof -
  have body: "loop_body f_xy2lon f_xy2lat s raw = (Continue, [Cout ''ERROR: Invalid input format''], s)"
    using assms(2-4) by (rule loop_body_malformed)
  moreover have "\<not> list_ex is_native_call (fst (snd (loop_body f_xy2lon f_xy2lat s raw)))"
    by (simp add: body)
  moreover have "session_loop f_xy2lon f_xy2lat s (raw @ newline # rest) =
           (Getline (Some raw) # Cout ''ERROR: Invalid input format'' #
              fst (session_loop f_xy2lon f_xy2lat s rest),
            snd (session_loop f_xy2lon f_xy2lat s rest))"
    using session_loop_line [OF assms(1) assms(3), of f_xy2lon f_xy2lat s rest] by (simp add: body)
  ultimately show ?thesis by simp
qed

theorem malformed_line_isolated_witness:
  "newline \<notin> set ''abc def'' \<and> trim ''abc def'' \<noteq> [] \<and> trim ''abc def'' \<noteq> ''EXIT'' \<and>
   extract_xy (trim ''abc def'') = None \<and>
   session_loop echo_lon echo_lat 0 (''abc def'' @ newline # ''1 2'') =
     ([Getline (Some ''abc def''), Cout ''ERROR: Invalid input format'', Getline (Some ''1 2''),
       Lon_call 0x3F800000 0x40000000, Lat_call 0x3F800000 0x40000000,
       Cout ''1.00000000,2.00000000'', Getline None], 2, [])"
proof -
  have h1: "newline \<notin> set ''abc def''" by code_simp
  have h2: "trim ''abc def'' \<noteq> []" by code_simp
  have h3: "trim ''abc def'' \<noteq> ''EXIT''" by code_simp
  have h4: "extract_xy (trim ''abc def'') = None" by code_simp
  have rest: "session_loop echo_lon echo_lat 0 ''1 2'' =
     ([Getline (Some ''1 2''), Lon_call 0x3F800000 0x40000000, Lat_call 0x3F800000 0x40000000,
       Cout ''1.00000000,2.00000000'', Getline None], 2, [])"
    by code_simp
  show ?thesis
    using malformed_line_isolated [OF h1 h2 h3 h4, of echo_lon echo_lat 0 "''1 2''"] h1 h2 h3 h4
    by (simp add: rest)
qed

subsection \<open>The shape of a printed value\<close>

lemma digit_char_isdigit: "isdigit (digit_char d)"
proof -
  have "nat (d mod 10) < length ''0123456789''"
    by simp
  then have "''0123456789'' ! nat (d mod 10) \<in> set ''0123456789''"
    by (rule nth_mem)
  then show ?thesis
    unfolding isdigit_def digit_char_def .
qed

lemma show_nat_digits: "show_nat n \<noteq> [] \<and> list_all isdigit (show_nat n)"
proof (induction n rule: show_nat.induct)
  case (1 n)
  show ?case
  proof (cases "n < 10")
    case True
    then show ?thesis
      by (subst (1 2) show_nat.simps) (simp add: digit_char_isdigit)
  next
    case False
    with "1" show ?thesis
      by (subst (1 2) show_nat.simps) (simp add: digit_char_isdigit)
  qed
qed

lemma fixed_digits_shape: "length (fixed_digits k n) = k \<and> list_all isdigit (fixed_digits k n)"
  by (simp add: fixed_digits_def list_all_iff digit_char_isdigit)

lemma not_isdigit_point: "\<not> isdigit (CHR ''.'')"
  by (simp add: isdigit_def)

lemma not_isdigit_minus: "\<not> isdigit (CHR ''-'')"
  by (simp add: isdigit_def)

lemma is_fixed_unsigned:
  assumes "ip \<noteq> []" and "list_all isdigit ip" and "list_all isdigit fp" and "length fp = p"
  shows "is_fixed p (ip @ CHR ''.'' # fp)"
proof -
  from assms(1,2) obtain c r where ip: "ip = c # r" and c: "isdigit c"
    by (cases ip) auto
  then have nm: "c \<noteq> CHR ''-''"
    using not_isdigit_minus by auto
  have tw: "takeWhile isdigit (ip @ CHR ''.'' # fp) = ip"
    using assms(2) by (simp add: takeWhile_append2 list_all_iff not_isdigit_point)
  have dw: "dropWhile isdigit (ip @ CHR ''.'' # fp) = CHR ''.'' # fp"
    using assms(2) by (simp add: dropWhile_append2 list_all_iff not_isdigit_point)
  have "(case ip @ CHR ''.'' # fp of [] \<Rightarrow> [] | c # r \<Rightarrow> if c = CHR ''-'' then r else ip @ CHR ''.'' # fp)
        = ip @ CHR ''.'' # fp"
    using ip nm by simp
  then show ?thesis
    unfolding is_fixed_def Let_def using tw dw assms by simp
qed

lemma is_fixed_signed:
  assumes "ip \<noteq> []" and "list_all isdigit ip" and "list_all isdigit fp" and "length fp = p"
  shows "is_fixed p (CHR ''-'' # ip @ CHR ''.'' # fp)"
proof -
  have tw: "takeWhile isdigit (ip @ CHR ''.'' # fp) = ip"
    using assms(2) by (simp add: takeWhile_append2 list_all_iff not_isdigit_point)
  have dw: "dropWhile isdigit (ip @ CHR ''.'' # fp) = CHR ''.'' # fp"
    using assms(2) by (simp add: dropWhile_append2 list_all_iff not_isdigit_point)
  show ?thesis
    unfolding is_fixed_def Let_def using tw dw assms by simp
qed

lemma put_fixed_is_fixed:
  assumes "isfinite w" and "0 < p"
  shows "is_fixed p (put_fixed p w)"
proof -
  obtain a b where ab: "scale2 (float_mantissa w * 10 ^ p) 1 (- float_exponent w) = (a, b)"
    by (cases "scale2 (float_mantissa w * 10 ^ p) 1 (- float_exponent w)")
  define ip where "ip = show_nat (round_half_even a b div 10 ^ p)"
  define fp where "fp = fixed_digits p (round_half_even a b mod 10 ^ p)"
  have shape: "ip \<noteq> []" "list_all isdigit ip" "list_all isdigit fp" "length fp = p"
    unfolding ip_def fp_def using show_nat_digits fixed_digits_shape by auto
  have "put_fixed p w = (if float_negative w then ''-'' else []) @ ip @ CHR ''.'' # fp"
    using assms ab by (simp add: put_fixed_def ip_def fp_def)
  then show ?thesis
    using is_fixed_unsigned [OF shape] is_fixed_signed [OF shape] by simp
qed

lemma put_fixed_hd:
  "put_fixed p w \<noteq> [] \<and> hd (put_fixed p w) \<in> set ''-0123456789in''"
proof (cases "float_negative w")
  case True
  then show ?thesis by (simp add: put_fixed_def)
next
  case False
  show ?thesis
  proof (cases "isfinite w")
    case fin: True
    obtain a b where ab: "scale2 (float_mantissa w * 10 ^ p) 1 (- float_exponent w) = (a, b)"
      by (cases "scale2 (float_mantissa w * 10 ^ p) 1 (- float_exponent w)")
    obtain c r where cr: "show_nat (round_half_even a b div 10 ^ p) = c # r" and c: "isdigit c"
      using show_nat_digits [of "round_half_even a b div 10 ^ p"]
      by (cases "show_nat (round_half_even a b div 10 ^ p)") auto
    from c have "c \<in> set ''-0123456789in''"
      by (auto simp: isdigit_def)
    then show ?thesis
      using False fin ab cr by (simp add: put_fixed_def)
  next
    case nf: False
    then show ?thesis
      using False by (simp add: put_fixed_def)
  qed
qed

lemma result_line_not_error:
  "take 6 (put_fixed p w @ rest) \<noteq> ''ERROR:''"
proof
  assume a: "take 6 (put_fixed p w @ rest) = ''ERROR:''"
  obtain c r where cr: "put_fixed p w = c # r" and c: "c \<in> set ''-0123456789in''"
    using put_fixed_hd [of p w] by (cases "put_fixed p w") auto
  from a cr have "c = CHR ''E''"
    by simp
  with c show False
    by simp
qed

subsection \<open>Requests\<close>

text \<open>
  C1, as amended. For every input line whose trimmed content is neither empty nor
  \<^verbatim>\<open>EXIT\<close> and from which two values \<open>x\<close> and \<open>y\<close> are extracted, the loop body calls
  the two conversion functions on \<open>(x, y)\<close>, writes exactly one line, the two results in
  fixed notation with precision 8 separated by a comma, and continues with the next
  line. A result that is finite is printed with exactly 8 digits after the decimal
  point.
\<close>

theorem convert_line_result:
  assumes "trim raw \<noteq> []" and "trim raw \<noteq> ''EXIT''" and "extract_xy (trim raw) = Some (x, y)"
  shows "loop_body f_xy2lon f_xy2lat s raw =
           (Continue,
            [Lon_call x y, Lat_call x y,
             Cout (put_fixed 8 (fst (f_xy2lon x y s)) @ '','' @
                   put_fixed 8 (fst (f_xy2lat x y (snd (f_xy2lon x y s)))))],
            snd (f_xy2lat x y (snd (f_xy2lon x y s)))) \<and>
         (isfinite (fst (f_xy2lon x y s)) \<longrightarrow> is_fixed 8 (put_fixed 8 (fst (f_xy2lon x y s)))) \<and>
         (isfinite (fst (f_xy2lat x y (snd (f_xy2lon x y s)))) \<longrightarrow>
            is_fixed 8 (put_fixed 8 (fst (f_xy2lat x y (snd (f_xy2lon x y s)))))) \<and>
         (newline \<notin> set raw \<longrightarrow>
            session_loop f_xy2lon f_xy2lat s (raw @ newline # rest) =
              (Getline (Some raw) # Lon_call x y # Lat_call x y #
               Cout (put_fixed 8 (fst (f_xy2lon x y s)) @ '','' @
                     put_fixed 8 (fst (f_xy2lat x y (snd (f_xy2lon x y s))))) #
               fst (session_loop f_xy2lon f_xy2lat (snd (f_xy2lat x y (snd (f_xy2lon x y s)))) rest),
               snd (session_loop f_xy2lon f_xy2lat (snd (f_xy2lat x y (snd (f_xy2lon x y s)))) rest)))"
proof -
  note body = loop_body_convert [OF assms, of f_xy2lon f_xy2lat s]
  have "newline \<notin> set raw \<longrightarrow>
            session_loop f_xy2lon f_xy2lat s (raw @ newline # rest) =
              (Getline (Some raw) # Lon_call x y # Lat_call x y #
               Cout (put_fixed 8 (fst (f_xy2lon x y s)) @ '','' @
                     put_fixed 8 (fst (f_xy2lat x y (snd (f_xy2lon x y s))))) #
               fst (session_loop f_xy2lon f_xy2lat (snd (f_xy2lat x y (snd (f_xy2lon x y s)))) rest),
               snd (session_loop f_xy2lon f_xy2lat (snd (f_xy2lat x y (snd (f_xy2lon x y s)))) rest))"
  proof
    assume "newline \<notin> set raw"
    from session_loop_line [OF this assms(2), of f_xy2lon f_xy2lat s rest]
    show "session_loop f_xy2lon f_xy2lat s (raw @ newline # rest) =
              (Getline (Some raw) # Lon_call x y # Lat_call x y #
               Cout (put_fixed 8 (fst (f_xy2lon x y s)) @ '','' @
                     put_fixed 8 (fst (f_xy2lat x y (snd (f_xy2lon x y s))))) #
               fst (session_loop f_xy2lon f_xy2lat (snd (f_xy2lat x y (snd (f_xy2lon x y s)))) rest),
               snd (session_loop f_xy2lon f_xy2lat (snd (f_xy2lat x y (snd (f_xy2lon x y s)))) rest))"
      by (simp add: body)
  qed
  then show ?thesis
    using body put_fixed_is_fixed [of _ 8] by simp
qed

theorem convert_line_result_witness:
  "trim ''807440.44 100150.11'' \<noteq> [] \<and> trim ''807440.44 100150.11'' \<noteq> ''EXIT'' \<and>
   extract_xy (trim ''807440.44 100150.11'') = Some (0x49452107, 0x47C39B0E) \<and>
   isfinite 0x49452107 \<and> isfinite 0x47C39B0E \<and>
   loop_body echo_lon echo_lat 0 ''807440.44 100150.11'' =
     (Continue,
      [Lon_call 0x49452107 0x47C39B0E, Lat_call 0x49452107 0x47C39B0E,
       Cout ''807440.43750000,100150.10937500''], 2) \<and>
   is_fixed 8 ''807440.43750000'' \<and> is_fixed 8 ''100150.10937500'' \<and>
   newline \<notin> set ''807440.44 100150.11'' \<and>
   session_loop echo_lon echo_lat 0 (''807440.44 100150.11'' @ newline # ''EXIT'') =
     ([Getline (Some ''807440.44 100150.11''), Lon_call 0x49452107 0x47C39B0E,
       Lat_call 0x49452107 0x47C39B0E, Cout ''807440.43750000,100150.10937500'',
       Getline (Some ''EXIT'')], 2, [])"
proof -
  have h4: "newline \<notin> set ''807440.44 100150.11''" by code_simp
  have rest: "session_loop echo_lon echo_lat (Suc (Suc 0)) ''EXIT'' = ([Getline (Some ''EXIT'')], Suc (Suc 0), [])"
    by code_simp
  have h1: "trim ''807440.44 100150.11'' \<noteq> []" by code_simp
  have h2: "trim ''807440.44 100150.11'' \<noteq> ''EXIT''" by code_simp
  have h3: "extract_xy (trim ''807440.44 100150.11'') = Some (0x49452107, 0x47C39B0E)" by code_simp
  have f1: "isfinite 0x49452107" by code_simp
  have f2: "isfinite 0x47C39B0E" by code_simp
  have p1: "put_fixed 8 0x49452107 = ''807440.43750000''" by code_simp
  have p2: "put_fixed 8 0x47C39B0E = ''100150.10937500''" by code_simp
  show ?thesis
    using convert_line_result [OF h1 h2 h3, of echo_lon echo_lat 0 "''EXIT''"] h1 h2 h3 h4 f1 f2
    by (simp add: echo_lon_def echo_lat_def p1 p2 rest)
qed

text \<open>
  C1 as stated fails when a conversion function returns a value that is not finite: the
  field is then a word, without any digit after a decimal point.
\<close>

theorem non_finite_result_counterexample:
  "trim ''1 2'' \<noteq> [] \<and> trim ''1 2'' \<noteq> ''EXIT'' \<and>
   extract_xy (trim ''1 2'') = Some (0x3F800000, 0x40000000) \<and>
   loop_body inf_lon inf_lat 0 ''1 2'' =
     (Continue, [Lon_call 0x3F800000 0x40000000, Lat_call 0x3F800000 0x40000000, Cout ''inf,inf''], 2) \<and>
   \<not> is_fixed 8 ''inf''"
  by code_simp

text \<open>
  C2, as amended. For every line whose trimmed content is neither empty nor \<^verbatim>\<open>EXIT\<close>
  the loop body writes exactly one line and continues. When two values cannot be
  extracted one after the other from the start of the line, that line is
  \<^verbatim>\<open>ERROR: Invalid input format\<close>; this is so whenever the line does not start (after
  white space) with a sign, a digit or a point. When two values can be extracted, the
  line written is a result and does not begin with \<^verbatim>\<open>ERROR:\<close>, whatever follows the two
  values.
\<close>

theorem malformed_line_error:
  assumes "trim raw \<noteq> []" and "trim raw \<noteq> ''EXIT''"
  shows "fst (loop_body f_xy2lon f_xy2lat s raw) = Continue \<and>
         (extract_xy (trim raw) = None \<longrightarrow>
            fst (snd (loop_body f_xy2lon f_xy2lat s raw)) = [Cout ''ERROR: Invalid input format'']) \<and>
         (extract_xy (trim raw) \<noteq> None \<longrightarrow>
            length (couts (fst (snd (loop_body f_xy2lon f_xy2lat s raw)))) = 1 \<and>
            take 6 (hd (couts (fst (snd (loop_body f_xy2lon f_xy2lat s raw))))) \<noteq> ''ERROR:'') \<and>
         ((case dropWhile isspace (trim raw) of [] \<Rightarrow> True | c # r \<Rightarrow> c \<notin> set ''+-.0123456789'') \<longrightarrow>
            extract_xy (trim raw) = None)"
proof -
  have "fst (loop_body f_xy2lon f_xy2lat s raw) = Continue"
    using assms(2) loop_body_break_iff [of f_xy2lon f_xy2lat s raw]
    by (cases "fst (loop_body f_xy2lon f_xy2lat s raw)") auto
  moreover have "extract_xy (trim raw) = None \<longrightarrow>
            fst (snd (loop_body f_xy2lon f_xy2lat s raw)) = [Cout ''ERROR: Invalid input format'']"
  proof
    assume "extract_xy (trim raw) = None"
    with assms have "loop_body f_xy2lon f_xy2lat s raw = (Continue, [Cout ''ERROR: Invalid input format''], s)"
      by (rule loop_body_malformed)
    then show "fst (snd (loop_body f_xy2lon f_xy2lat s raw)) = [Cout ''ERROR: Invalid input format'']"
      by simp
  qed
  moreover have "extract_xy (trim raw) \<noteq> None \<longrightarrow>
            length (couts (fst (snd (loop_body f_xy2lon f_xy2lat s raw)))) = 1 \<and>
            take 6 (hd (couts (fst (snd (loop_body f_xy2lon f_xy2lat s raw))))) \<noteq> ''ERROR:''"
  proof
    assume "extract_xy (trim raw) \<noteq> None"
    then obtain x y where "extract_xy (trim raw) = Some (x, y)"
      by auto
    from loop_body_convert [OF assms this, of f_xy2lon f_xy2lat s]
    show "length (couts (fst (snd (loop_body f_xy2lon f_xy2lat s raw)))) = 1 \<and>
            take 6 (hd (couts (fst (snd (loop_body f_xy2lon f_xy2lat s raw))))) \<noteq> ''ERROR:''"
      using result_line_not_error by simp
  qed
  moreover have "(case dropWhile isspace (trim raw) of [] \<Rightarrow> True | c # r \<Rightarrow> c \<notin> set ''+-.0123456789'') \<longrightarrow>
            extract_xy (trim raw) = None"
  proof (cases "dropWhile isspace (trim raw)")
    case Nil
    then show ?thesis
      by (simp add: extract_xy_def get_float_empty)
  next
    case (Cons c r)
    show ?thesis
    proof
      assume "case dropWhile isspace (trim raw) of [] \<Rightarrow> True | c # r \<Rightarrow> c \<notin> set ''+-.0123456789''"
      with Cons have "c \<notin> set ''+-.0123456789''"
        by simp
      with Cons show "extract_xy (trim raw) = None"
        by (rule extract_xy_no_number)
    qed
  qed
  ultimately show ?thesis
    by blast
qed

theorem malformed_line_error_witness:
  "trim ''abc def'' \<noteq> [] \<and> trim ''abc def'' \<noteq> ''EXIT'' \<and> extract_xy (trim ''abc def'') = None \<and>
   (case dropWhile isspace (trim ''abc def'') of [] \<Rightarrow> True | c # r \<Rightarrow> c \<notin> set ''+-.0123456789'') \<and>
   fst (loop_body echo_lon echo_lat 0 ''abc def'') = Continue \<and>
   fst (snd (loop_body echo_lon echo_lat 0 ''abc def'')) = [Cout ''ERROR: Invalid input format''] \<and>
   trim ''1 2 3'' \<noteq> [] \<and> trim ''1 2 3'' \<noteq> ''EXIT'' \<and> extract_xy (trim ''1 2 3'') \<noteq> None \<and>
   fst (loop_body echo_lon echo_lat 0 ''1 2 3'') = Continue \<and>
   length (couts (fst (snd (loop_body echo_lon echo_lat 0 ''1 2 3'')))) = 1 \<and>
   take 6 (hd (couts (fst (snd (loop_body echo_lon echo_lat 0 ''1 2 3''))))) \<noteq> ''ERROR:''"
proof -
  have h1: "trim ''abc def'' \<noteq> []" by code_simp
  have h2: "trim ''abc def'' \<noteq> ''EXIT''" by code_simp
  have h3: "extract_xy (trim ''abc def'') = None" by code_simp
  have h4: "case dropWhile isspace (trim ''abc def'') of [] \<Rightarrow> True | c # r \<Rightarrow> c \<notin> set ''+-.0123456789''"
    by code_simp
  have k1: "trim ''1 2 3'' \<noteq> []" by code_simp
  have k2: "trim ''1 2 3'' \<noteq> ''EXIT''" by code_simp
  have k3: "extract_xy (trim ''1 2 3'') \<noteq> None" by code_simp
  show ?thesis
    using malformed_line_error [OF h1 h2, of echo_lon echo_lat 0]
      malformed_line_error [OF k1 k2, of echo_lon echo_lat 0] h1 h2 h3 h4 k1 k2 k3
    by blast
qed

text \<open>
  C2 as stated fails on a line with more than two tokens: the two leading values are
  converted and the third token is never looked at.
\<close>

theorem extra_tokens_counterexample:
  "trim ''1 2 3'' \<noteq> [] \<and> trim ''1 2 3'' \<noteq> ''EXIT'' \<and> \<not> two_float_tokens ''1 2 3'' \<and>
   tokens ''1 2 3'' = [''1'', ''2'', ''3''] \<and>
   loop_body echo_lon echo_lat 0 ''1 2 3'' =
     (Continue,
      [Lon_call 0x3F800000 0x40000000, Lat_call 0x3F800000 0x40000000, Cout ''1.00000000,2.00000000''],
      2)"
  by code_simp

text \<open>
  C9, as amended. A line whose trimmed content is not empty and differs from the four
  characters \<^verbatim>\<open>EXIT\<close> never ends the session: the loop body continues. It goes on to
  the extraction, and whenever two values cannot be extracted its only effect is the
  line \<^verbatim>\<open>ERROR: Invalid input format\<close>. This is always so when the content starts with
  \<^verbatim>\<open>E\<close> or \<^verbatim>\<open>e\<close> (\<^verbatim>\<open>exit\<close>, \<^verbatim>\<open>Exit\<close>, \<^verbatim>\<open>EXIT now\<close>).
\<close>

theorem near_exit_line:
  assumes "trim raw \<noteq> []" and "trim raw \<noteq> ''EXIT''"
  shows "fst (loop_body f_xy2lon f_xy2lat s raw) = Continue \<and>
         (extract_xy (trim raw) = None \<longrightarrow>
            loop_body f_xy2lon f_xy2lat s raw = (Continue, [Cout ''ERROR: Invalid input format''], s)) \<and>
         (hd (trim raw) \<in> {CHR ''E'', CHR ''e''} \<longrightarrow>
            loop_body f_xy2lon f_xy2lat s raw = (Continue, [Cout ''ERROR: Invalid input format''], s))"
proof -
  have "fst (loop_body f_xy2lon f_xy2lat s raw) = Continue"
    using assms(2) loop_body_break_iff [of f_xy2lon f_xy2lat s raw]
    by (cases "fst (loop_body f_xy2lon f_xy2lat s raw)") auto
  moreover have none: "extract_xy (trim raw) = None \<longrightarrow>
            loop_body f_xy2lon f_xy2lat s raw = (Continue, [Cout ''ERROR: Invalid input format''], s)"
    using loop_body_malformed [OF assms, of f_xy2lon f_xy2lat s] by blast
  moreover have "hd (trim raw) \<in> {CHR ''E'', CHR ''e''} \<longrightarrow>
            loop_body f_xy2lon f_xy2lat s raw = (Continue, [Cout ''ERROR: Invalid input format''], s)"
  proof
    assume e: "hd (trim raw) \<in> {CHR ''E'', CHR ''e''}"
    from assms(1) obtain c r where cr: "trim raw = c # r"
      by (cases "trim raw") auto
    with e have c: "c = CHR ''E'' \<or> c = CHR ''e''"
      by simp
    then have "\<not> isspace c"
      by (auto simp: isspace_def tab_def newline_def carriage_return_def)
    with cr have "dropWhile isspace (trim raw) = c # r"
      by simp
    moreover from c have "c \<notin> set ''+-.0123456789''"
      by auto
    ultimately have "extract_xy (trim raw) = None"
      by (rule extract_xy_no_number)
    with none show "loop_body f_xy2lon f_xy2lat s raw = (Continue, [Cout ''ERROR: Invalid input format''], s)"
      by blast
  qed
  ultimately show ?thesis
    by simp
qed

theorem near_exit_line_witness:
  "trim ''EXIT now'' \<noteq> [] \<and> trim ''EXIT now'' \<noteq> ''EXIT'' \<and> hd (trim ''EXIT now'') \<in> {CHR ''E'', CHR ''e''} \<and>
   loop_body echo_lon echo_lat 0 ''EXIT now'' = (Continue, [Cout ''ERROR: Invalid input format''], 0)"
proof -
  have h1: "trim ''EXIT now'' \<noteq> []" by code_simp
  have h2: "trim ''EXIT now'' \<noteq> ''EXIT''" by code_simp
  have h3: "hd (trim ''EXIT now'') \<in> {CHR ''E'', CHR ''e''}" by code_simp
  show ?thesis
    using near_exit_line [OF h1 h2, of echo_lon echo_lat 0] h1 h2 h3 by blast
qed

text \<open>
  C9 as stated fails on a line that contains \<^verbatim>\<open>EXIT\<close> after two values: the line is
  not two floating-point tokens, yet it is converted and no diagnostic is written.
\<close>

theorem exit_after_values_counterexample:
  "find_str ''1 2 EXIT'' ''EXIT'' = Some 4 \<and> trim ''1 2 EXIT'' = ''1 2 EXIT'' \<and>
   ''1 2 EXIT'' \<noteq> ''EXIT'' \<and> \<not> two_float_tokens ''1 2 EXIT'' \<and>
   loop_body echo_lon echo_lat 0 ''1 2 EXIT'' =
     (Continue,
      [Lon_call 0x3F800000 0x40000000, Lat_call 0x3F800000 0x40000000, Cout ''1.00000000,2.00000000''],
      2)"
  by code_simp

subsection \<open>Startup\<close>

lemma session_entry_None_iff: "session_entry E = None \<longleftrightarrow> startup_failure E"
  by (auto simp: session_entry_def startup_failure_def split: option.splits)

lemma main_session:
  assumes "session_entry E = Some (f, g, s)"
  shows "main E =
     \<lparr>exit_status = EXIT_SUCCESS,
      trace = [Load_call (dll_path E), Init_call (trn_name E), Cout ''READY''] @
              fst (session_loop f g s (cin E)),
      unread = snd (snd (session_loop f g s (cin E))),
      final_state = fst (snd (session_loop f g s (cin E)))\<rparr>"
proof -
  from assms have nf: "\<not> startup_failure E"
    by (auto simp: session_entry_def split: if_splits)
  then have argc: "length (argv E) = 2"
    and reg: "fst (RegGetValueA E (''Software'' @ [backslash] @ ''Condor3'') ''InstallDir'') = ERROR_SUCCESS"
    by (auto simp: startup_failure_def)
  from nf obtain h where h: "LoadLibraryA E (dll_path E) = Some h"
    by (auto simp: startup_failure_def split: option.splits)
  from nf h obtain f_init where i: "NaviConInit h = Some f_init"
    and ok: "fst (f_init (trn_name E) (loaded_state E)) \<noteq> 0"
    by (auto simp: startup_failure_def split: option.splits)
  from assms nf h i have fg: "XYToLon h = Some f" "XYToLat h = Some g"
    and s: "s = snd (f_init (trn_name E) (loaded_state E))"
    by (auto simp: session_entry_def split: option.splits)
  show ?thesis
    using argc reg h i ok fg s
    by (auto simp: main_def split: prod.splits)
qed

lemma main_failure:
  assumes "startup_failure E"
  shows "\<exists>evs s. main E = failure E s evs \<and> couts evs = [] \<and> cerrs evs \<noteq> [] \<and> reads evs = [] \<and>
           \<not> list_ex is_read evs"
proof (cases "length (argv E) \<noteq> 2")
  case True
  then have "main E = failure E (loaded_state E) usage"
    by (simp add: main_def)
  then show ?thesis
    by (auto simp: usage_def)
next
  case argc: False
  show ?thesis
  proof (cases "fst (RegGetValueA E (''Software'' @ [backslash] @ ''Condor3'') ''InstallDir'') \<noteq> ERROR_SUCCESS")
    case True
    with argc have "main E = failure E (loaded_state E)
        [Cerr ''ERROR: Could not find Condor3 installation directory in registry'']"
      by (simp add: main_def)
    then show ?thesis
      by auto
  next
    case reg: False
    show ?thesis
    proof (cases "LoadLibraryA E (dll_path E)")
      case None
      with argc reg have "main E = failure E (loaded_state E)
          [Load_call (dll_path E), Cerr (''ERROR: Could not load '' @ dll_path E)]"
        by (simp add: main_def)
      then show ?thesis
        by auto
    next
      case (Some h)
      show ?thesis
      proof (cases "NaviConInit h = None \<or> XYToLon h = None \<or> XYToLat h = None")
        case True
        with argc reg Some have "main E = failure E (loaded_state E)
            [Load_call (dll_path E), Cerr ''ERROR: Could not get NaviCon.dll function pointers'']"
          by (auto simp: main_def split: option.splits)
        then show ?thesis
          by auto
      next
        case False
        then obtain f_init f g where e: "NaviConInit h = Some f_init" "XYToLon h = Some f" "XYToLat h = Some g"
          by auto
        with assms argc reg Some have z: "fst (f_init (trn_name E) (loaded_state E)) = 0"
          by (simp add: startup_failure_def)
        with argc reg Some e have "main E = failure E (snd (f_init (trn_name E) (loaded_state E)))
            [Load_call (dll_path E), Init_call (trn_name E),
             Cerr (''ERROR: NaviConInit failed for '' @ trn_name E)]"
          by (auto simp: main_def split: prod.splits)
        then show ?thesis
          by auto
      qed
    qed
  qed
qed

text \<open>
  C3. On every startup failure (wrong argument count, installation directory not
  found, library not loaded, an entry point missing, or the initialiser returning zero)
  the process writes a diagnostic to standard error and exits with the failure status,
  which is not zero; it writes nothing to standard output, so never \<^verbatim>\<open>READY\<close>, and it
  never reads standard input: the session loop is not entered.
\<close>

theorem startup_failure_exits:
  assumes "startup_failure E"
  shows "exit_status (main E) = EXIT_FAILURE \<and> EXIT_FAILURE \<noteq> 0 \<and>
         cerrs (trace (main E)) \<noteq> [] \<and>
         couts (trace (main E)) = [] \<and>
         ''READY'' \<notin> set (couts (trace (main E))) \<and>
         \<not> list_ex is_read (trace (main E)) \<and>
         unread (main E) = cin E"
proof -
  from main_failure [OF assms] obtain evs s where
    "main E = failure E s evs" "couts evs = []" "cerrs evs \<noteq> []" "\<not> list_ex is_read evs"
    by blast
  then show ?thesis
    by (simp add: failure_def EXIT_FAILURE_def)
qed

theorem startup_failure_exits_witness:
  "startup_failure (echo_env [''Condor3XY2LatLon_persistent.exe''] ''1 2'') \<and>
   main (echo_env [''Condor3XY2LatLon_persistent.exe''] ''1 2'') =
     \<lparr>exit_status = 1, trace = usage, unread = ''1 2'', final_state = 0\<rparr> \<and>
   cerrs usage \<noteq> [] \<and> couts usage = []"
proof -
  have h: "startup_failure (echo_env [''Condor3XY2LatLon_persistent.exe''] ''1 2'')"
    by code_simp
  have m: "main (echo_env [''Condor3XY2LatLon_persistent.exe''] ''1 2'') =
     \<lparr>exit_status = 1, trace = usage, unread = ''1 2'', final_state = 0\<rparr>"
    by code_simp
  show ?thesis
    using startup_failure_exits [OF h] h by (simp add: m usage_def)
qed

subsection \<open>The whole session\<close>

lemma getline_None_iff: "getline inp = None \<longleftrightarrow> inp = []"
  by (simp add: getline_def)

lemma getline_Some:
  assumes "getline inp = Some (raw, rest)"
  shows "newline \<notin> set raw \<and> (inp = raw @ newline # rest \<or> inp = raw \<and> rest = [] \<and> raw \<noteq> [])"
proof -
  from assms have ne: "inp \<noteq> []" and raw: "raw = takeWhile (\<lambda>c. c \<noteq> newline) inp"
    and rest: "rest = drop 1 (dropWhile (\<lambda>c. c \<noteq> newline) inp)"
    by (auto simp: getline_def split: if_splits)
  have nl: "newline \<notin> set raw"
    unfolding raw using set_takeWhileD by fastforce
  have split: "inp = raw @ dropWhile (\<lambda>c. c \<noteq> newline) inp"
    unfolding raw by simp
  show ?thesis
  proof (cases "dropWhile (\<lambda>c. c \<noteq> newline) inp")
    case Nil
    with split rest ne nl show ?thesis by (simp del: dropWhile_eq_Nil_conv)
  next
    case (Cons d ds)
    then have "d = newline"
      using hd_dropWhile [of "\<lambda>c. c \<noteq> newline" inp] by auto
    with Cons split rest nl show ?thesis by simp
  qed
qed

lemma getline_shorter: "getline inp = Some (raw, rest) \<Longrightarrow> length rest < length inp"
  using getline_Some [of inp raw rest] by (cases "raw = []") auto

lemma session_loop_induct [consumes 0, case_names eof exit continue]:
  assumes eof: "\<And>s. P s []"
    and exit: "\<And>s inp raw rest. getline inp = Some (raw, rest) \<Longrightarrow> trim raw = ''EXIT'' \<Longrightarrow> P s inp"
    and continue: "\<And>s inp raw rest. getline inp = Some (raw, rest) \<Longrightarrow> trim raw \<noteq> ''EXIT'' \<Longrightarrow>
                    P (snd (snd (loop_body f g s raw))) rest \<Longrightarrow> P s inp"
  shows "P s inp"
proof (induction inp arbitrary: s rule: length_induct)
  case (1 inp)
  show ?case
  proof (cases "getline inp")
    case None
    then show ?thesis
      using eof by (simp add: getline_None_iff)
  next
    case (Some p)
    obtain raw rest where p: "p = (raw, rest)"
      by (cases p)
    with Some have g: "getline inp = Some (raw, rest)"
      by simp
    show ?thesis
    proof (cases "trim raw = ''EXIT''")
      case True
      with g show ?thesis by (rule exit)
    next
      case False
      have "P (snd (snd (loop_body f g s raw))) rest"
        using "1.IH" getline_shorter [OF g] by blast
      with g False show ?thesis by (rule continue)
    qed
  qed
qed

lemma loop_body_cases:
  obtains (blank) "trim raw = []" "loop_body f g s raw = (Continue, [], s)"
  | (exit) "trim raw = ''EXIT''" "loop_body f g s raw = (Break, [], s)"
  | (malformed) "trim raw \<noteq> []" "trim raw \<noteq> ''EXIT''" "extract_xy (trim raw) = None"
      "loop_body f g s raw = (Continue, [Cout ''ERROR: Invalid input format''], s)"
  | (convert) x y where "trim raw \<noteq> []" "trim raw \<noteq> ''EXIT''" "extract_xy (trim raw) = Some (x, y)"
      "loop_body f g s raw =
         (Continue,
          [Lon_call x y, Lat_call x y,
           Cout (put_fixed 8 (fst (f x y s)) @ '','' @ put_fixed 8 (fst (g x y (snd (f x y s)))))],
          snd (g x y (snd (f x y s))))"
proof (cases "trim raw = []")
  case True
  show ?thesis
    by (rule blank) (simp_all add: True loop_body_blank)
next
  case ne: False
  show ?thesis
  proof (cases "trim raw = ''EXIT''")
    case True
    show ?thesis
      by (rule exit) (simp_all add: True loop_body_exit)
  next
    case nx: False
    show ?thesis
    proof (cases "extract_xy (trim raw)")
      case None
      show ?thesis
        by (rule malformed) (simp_all add: ne nx None loop_body_malformed)
    next
      case (Some p)
      then obtain x y where xy: "extract_xy (trim raw) = Some (x, y)"
        by (cases p) auto
      show ?thesis
        by (rule convert [of x y]) (simp_all add: ne nx xy loop_body_convert)
    qed
  qed
qed

lemma ready_no_comma: "''READY'' \<noteq> a @ CHR '','' # b"
proof
  assume "''READY'' = a @ CHR '','' # b"
  then have "CHR '','' \<in> set ''READY''"
    by (metis in_set_conv_decomp)
  then show False
    by simp
qed

lemma couts_append: "couts (a @ b) = couts a @ couts b"
  by (induction a rule: couts.induct) auto

lemma reads_append: "reads (a @ b) = reads a @ reads b"
  by (induction a rule: reads.induct) auto

lemma loop_body_reads: "reads (fst (snd (loop_body f g s raw))) = []"
  by (cases raw rule: loop_body_cases [of _ f g s]) auto

lemma loop_body_no_read: "Getline l \<notin> set (fst (snd (loop_body f g s raw)))"
  by (cases raw rule: loop_body_cases [of _ f g s]) auto

lemma loop_body_not_ready: "''READY'' \<notin> set (couts (fst (snd (loop_body f g s raw))))"
  by (cases raw rule: loop_body_cases [of _ f g s]) (auto simp: ready_no_comma)

lemma session_not_ready: "''READY'' \<notin> set (couts (fst (session_loop f g s inp)))"
proof (induction s inp rule: session_loop_induct [of _ f g])
  case (eof s)
  show ?case by (simp add: session_loop_eof)
next
  case (exit s inp raw rest)
  then show ?case by (simp add: session_loop_step)
next
  case (continue s inp raw rest)
  then show ?case
    using loop_body_not_ready [of f g s raw] by (simp add: session_loop_step couts_append)
qed

lemma session_reads_first: "\<exists>l evs. fst (session_loop f g s inp) = Getline l # evs"
proof (cases "getline inp")
  case None
  then show ?thesis by (simp add: getline_None_iff session_loop_eof)
next
  case (Some p)
  then show ?thesis by (cases p) (simp add: session_loop_step)
qed

text \<open>
  C5. \<^verbatim>\<open>READY\<close> is written to standard output exactly once in a run whose startup
  succeeds, and never otherwise. In such a run the library has been loaded and its
  initialiser has returned a nonzero value; the trace begins with the load, the call of
  the initialiser and the \<^verbatim>\<open>READY\<close> line, in this order, and every read of standard
  input comes after them.
\<close>

theorem ready_once:
  "count_list (couts (trace (main E))) ''READY'' = (if startup_failure E then 0 else 1) \<and>
   (\<not> startup_failure E \<longrightarrow>
      (case LoadLibraryA E (dll_path E) of
         None \<Rightarrow> False
       | Some h \<Rightarrow> (case NaviConInit h of
                     None \<Rightarrow> False
                   | Some f_init \<Rightarrow> fst (f_init (trn_name E) (loaded_state E)) \<noteq> 0)) \<and>
      take 3 (trace (main E)) = [Load_call (dll_path E), Init_call (trn_name E), Cout ''READY''] \<and>
      ''READY'' \<notin> set (couts (drop 3 (trace (main E)))) \<and>
      list_ex is_read (drop 3 (trace (main E))))"
proof (cases "startup_failure E")
  case True
  from main_failure [OF True] obtain evs s where "main E = failure E s evs" "couts evs = []"
    by blast
  with True show ?thesis
    by (simp add: failure_def)
next
  case False
  then obtain f g s where entry: "session_entry E = Some (f, g, s)"
    using session_entry_None_iff [of E] by (cases "session_entry E") auto
  note m = main_session [OF entry]
  have init: "case LoadLibraryA E (dll_path E) of
         None \<Rightarrow> False
       | Some h \<Rightarrow> (case NaviConInit h of
                     None \<Rightarrow> False
                   | Some f_init \<Rightarrow> fst (f_init (trn_name E) (loaded_state E)) \<noteq> 0)"
    using False by (auto simp: startup_failure_def split: option.splits)
  have nr: "''READY'' \<notin> set (couts (fst (session_loop f g s (cin E))))"
    by (rule session_not_ready)
  then have cnt: "count_list (couts (fst (session_loop f g s (cin E)))) ''READY'' = 0"
    by (simp add: count_list_0_iff)
  obtain l evs where rd: "fst (session_loop f g s (cin E)) = Getline l # evs"
    using session_reads_first [of f g s "cin E"] by blast
  show ?thesis
    using False init nr cnt rd by (simp add: m)
qed

theorem ready_once_witness:
  "\<not> startup_failure (echo_env [''prog'', ''AA3''] ''1 2'') \<and>
   startup_failure (echo_env [''prog''] ''1 2'') \<and>
   trace (main (echo_env [''prog'', ''AA3''] ''1 2'')) =
     [Load_call (''C:'' @ [backslash] @ ''Condor3'' @ [backslash] @ ''NaviCon.dll''),
      Init_call (''C:'' @ [backslash] @ ''Condor3'' @ [backslash] @ ''Landscapes'' @ [backslash] @
                 ''AA3'' @ [backslash] @ ''AA3.trn''),
      Cout ''READY'', Getline (Some ''1 2''),
      Lon_call 0x3F800000 0x40000000, Lat_call 0x3F800000 0x40000000,
      Cout ''1.00000000,2.00000000'', Getline None] \<and>
   count_list (couts (trace (main (echo_env [''prog'', ''AA3''] ''1 2'')))) ''READY'' = 1 \<and>
   count_list (couts (trace (main (echo_env [''prog''] ''1 2'')))) ''READY'' = 0"
proof -
  have h1: "\<not> startup_failure (echo_env [''prog'', ''AA3''] ''1 2'')" by code_simp
  have h2: "startup_failure (echo_env [''prog''] ''1 2'')" by code_simp
  have t: "trace (main (echo_env [''prog'', ''AA3''] ''1 2'')) =
     [Load_call (''C:'' @ [backslash] @ ''Condor3'' @ [backslash] @ ''NaviCon.dll''),
      Init_call (''C:'' @ [backslash] @ ''Condor3'' @ [backslash] @ ''Landscapes'' @ [backslash] @
                 ''AA3'' @ [backslash] @ ''AA3.trn''),
      Cout ''READY'', Getline (Some ''1 2''),
      Lon_call 0x3F800000 0x40000000, Lat_call 0x3F800000 0x40000000,
      Cout ''1.00000000,2.00000000'', Getline None]"
    by code_simp
  show ?thesis
    using ready_once [of "echo_env [''prog'', ''AA3''] ''1 2''"]
      ready_once [of "echo_env [''prog''] ''1 2''"] h1 h2 t
    by simp
qed

lemma unlines_Cons: "unlines (l # ls) = l @ newline # unlines ls"
  by (simp add: unlines_def)

lemma unlines_Nil: "unlines [] = []"
  by (simp add: unlines_def)

lemma session_events_nonempty: "fst (session_loop f g s inp) \<noteq> []"
  using session_reads_first [of f g s inp] by auto

lemma session_end:
  "(last (fst (session_loop f g s inp)) = Getline None \<and> snd (snd (session_loop f g s inp)) = [] \<or>
    (\<exists>raw. last (fst (session_loop f g s inp)) = Getline (Some raw) \<and> trim raw = ''EXIT'')) \<and>
   (\<forall>raw. Getline (Some raw) \<in> set (butlast (fst (session_loop f g s inp))) \<longrightarrow> trim raw \<noteq> ''EXIT'')"
proof (induction s inp rule: session_loop_induct [of _ f g])
  case (eof s)
  show ?case by (simp add: session_loop_eof)
next
  case (exit s inp raw rest)
  then show ?case by (simp add: session_loop_step)
next
  case (continue s inp raw rest)
  define s' where "s' = snd (snd (loop_body f g s raw))"
  define body where "body = fst (snd (loop_body f g s raw))"
  define evs where "evs = fst (session_loop f g s' rest)"
  have ne: "evs \<noteq> []"
    unfolding evs_def by (rule session_events_nonempty)
  have step: "session_loop f g s inp = (Getline (Some raw) # body @ evs, snd (session_loop f g s' rest))"
    using continue(1,2) by (simp add: session_loop_step s'_def body_def evs_def)
  have l: "last (Getline (Some raw) # body @ evs) = last evs"
    using ne by simp
  have b: "butlast (Getline (Some raw) # body @ evs) = Getline (Some raw) # body @ butlast evs"
    using ne by (simp add: butlast_append)
  have nb: "\<And>l. Getline l \<notin> set body"
    unfolding body_def by (rule loop_body_no_read)
  from continue(3) show ?case
    unfolding step s'_def [symmetric] evs_def [symmetric]
    using l b nb continue(2) by auto
qed

lemma session_consumed:
  "inp = unlines (reads (fst (session_loop f g s inp))) @ snd (snd (session_loop f g s inp)) \<or>
   snd (snd (session_loop f g s inp)) = [] \<and>
   inp @ [newline] = unlines (reads (fst (session_loop f g s inp)))"
proof (induction s inp rule: session_loop_induct [of _ f g])
  case (eof s)
  show ?case by (simp add: session_loop_eof unlines_Nil)
next
  case (exit s inp raw rest)
  then show ?case
    using getline_Some [OF exit(1)] by (auto simp: session_loop_step unlines_Cons unlines_Nil)
next
  case (continue s inp raw rest)
  define s' where "s' = snd (snd (loop_body f g s raw))"
  define body where "body = fst (snd (loop_body f g s raw))"
  define evs where "evs = fst (session_loop f g s' rest)"
  define left where "left = snd (snd (session_loop f g s' rest))"
  have step: "fst (session_loop f g s inp) = Getline (Some raw) # body @ evs"
    "snd (snd (session_loop f g s inp)) = left"
    using continue(1,2) by (simp_all add: session_loop_step s'_def body_def evs_def left_def)
  have rd: "reads (Getline (Some raw) # body @ evs) = raw # reads evs"
    by (simp add: reads_append body_def loop_body_reads)
  from continue(3) have ih: "rest = unlines (reads evs) @ left \<or> left = [] \<and> rest @ [newline] = unlines (reads evs)"
    by (simp add: s'_def evs_def left_def)
  from getline_Some [OF continue(1)]
  have "inp = raw @ newline # rest \<or> inp = raw \<and> rest = [] \<and> raw \<noteq> []"
    by simp
  then show ?case
  proof
    assume "inp = raw @ newline # rest"
    with ih show ?thesis
      unfolding step rd by (auto simp: unlines_Cons)
  next
    assume a: "inp = raw \<and> rest = [] \<and> raw \<noteq> []"
    then have "evs = [Getline None]" "left = []"
      by (simp_all add: evs_def left_def session_loop_eof)
    with a show ?thesis
      unfolding step rd by (simp add: unlines_Cons unlines_Nil)
  qed
qed

text \<open>
  C4. The exit status is success exactly when the startup succeeds, and the session
  then ends in one of two ways. Either the last event is the read that finds standard
  input exhausted, and nothing is left unread; or the last event is the read of a line
  that trims to \<^verbatim>\<open>EXIT\<close>: nothing is written for that line and nothing is read after
  it. No line read earlier trims to \<^verbatim>\<open>EXIT\<close>, and the input left unread is exactly what
  follows the lines that were read.
\<close>

theorem session_termination:
  "(exit_status (main E) = EXIT_SUCCESS \<longleftrightarrow> \<not> startup_failure E) \<and>
   (\<not> startup_failure E \<longrightarrow>
      (last (trace (main E)) = Getline None \<and> unread (main E) = [] \<or>
       (\<exists>raw. last (trace (main E)) = Getline (Some raw) \<and> trim raw = ''EXIT'')) \<and>
      (\<forall>raw. Getline (Some raw) \<in> set (butlast (trace (main E))) \<longrightarrow> trim raw \<noteq> ''EXIT'') \<and>
      (cin E = unlines (reads (trace (main E))) @ unread (main E) \<or>
       unread (main E) = [] \<and> cin E @ [newline] = unlines (reads (trace (main E)))))"
proof (cases "startup_failure E")
  case True
  from main_failure [OF True] obtain evs s where "main E = failure E s evs"
    by blast
  with True show ?thesis
    by (simp add: failure_def EXIT_FAILURE_def EXIT_SUCCESS_def)
next
  case False
  then obtain f g s where entry: "session_entry E = Some (f, g, s)"
    using session_entry_None_iff [of E] by (cases "session_entry E") auto
  note m = main_session [OF entry]
  define evs where "evs = fst (session_loop f g s (cin E))"
  define left where "left = snd (snd (session_loop f g s (cin E)))"
  have ne: "evs \<noteq> []"
    unfolding evs_def by (rule session_events_nonempty)
  have tr: "trace (main E) = Load_call (dll_path E) # Init_call (trn_name E) # Cout ''READY'' # evs"
    and un: "unread (main E) = left" and ex: "exit_status (main E) = EXIT_SUCCESS"
    by (simp_all add: m evs_def left_def)
  have l: "last (trace (main E)) = last evs"
    using ne by (simp add: tr)
  have b: "butlast (trace (main E)) = Load_call (dll_path E) # Init_call (trn_name E) # Cout ''READY'' # butlast evs"
    using ne by (simp add: tr)
  have r: "reads (trace (main E)) = reads evs"
    by (simp add: tr)
  from session_end [of f g s "cin E"]
  have e: "(last evs = Getline None \<and> left = [] \<or> (\<exists>raw. last evs = Getline (Some raw) \<and> trim raw = ''EXIT'')) \<and>
           (\<forall>raw. Getline (Some raw) \<in> set (butlast evs) \<longrightarrow> trim raw \<noteq> ''EXIT'')"
    by (simp add: evs_def left_def)
  from session_consumed [of "cin E" f g s]
  have c: "cin E = unlines (reads evs) @ left \<or> left = [] \<and> cin E @ [newline] = unlines (reads evs)"
    by (simp add: evs_def left_def)
  show ?thesis
    using False e c unfolding l b r un ex by auto
qed

theorem session_termination_witness:
  "\<not> startup_failure (echo_env [''prog'', ''AA3''] (''1 2'' @ newline # '' EXIT '' @ newline # ''3 4'')) \<and>
   main (echo_env [''prog'', ''AA3''] (''1 2'' @ newline # '' EXIT '' @ newline # ''3 4'')) =
     \<lparr>exit_status = 0,
      trace =
        [Load_call (''C:'' @ [backslash] @ ''Condor3'' @ [backslash] @ ''NaviCon.dll''),
         Init_call (''C:'' @ [backslash] @ ''Condor3'' @ [backslash] @ ''Landscapes'' @ [backslash] @
                    ''AA3'' @ [backslash] @ ''AA3.trn''),
         Cout ''READY'', Getline (Some ''1 2''),
         Lon_call 0x3F800000 0x40000000, Lat_call 0x3F800000 0x40000000,
         Cout ''1.00000000,2.00000000'', Getline (Some '' EXIT '')],
      unread = ''3 4'', final_state = 2\<rparr> \<and>
   trim '' EXIT '' = ''EXIT'' \<and>
   (exit_status (main (echo_env [''prog'', ''AA3''] (''1 2'' @ newline # '' EXIT '' @ newline # ''3 4''))) = EXIT_SUCCESS)"
proof -
  have h: "\<not> startup_failure (echo_env [''prog'', ''AA3''] (''1 2'' @ newline # '' EXIT '' @ newline # ''3 4''))"
    by code_simp
  have m: "main (echo_env [''prog'', ''AA3''] (''1 2'' @ newline # '' EXIT '' @ newline # ''3 4'')) =
     \<lparr>exit_status = 0,
      trace =
        [Load_call (''C:'' @ [backslash] @ ''Condor3'' @ [backslash] @ ''NaviCon.dll''),
         Init_call (''C:'' @ [backslash] @ ''Condor3'' @ [backslash] @ ''Landscapes'' @ [backslash] @
                    ''AA3'' @ [backslash] @ ''AA3.trn''),
         Cout ''READY'', Getline (Some ''1 2''),
         Lon_call 0x3F800000 0x40000000, Lat_call 0x3F800000 0x40000000,
         Cout ''1.00000000,2.00000000'', Getline (Some '' EXIT '')],
      unread = ''3 4'', final_state = 2\<rparr>"
    by code_simp
  have t: "trim '' EXIT '' = ''EXIT''"
    by code_simp
  from session_termination [of "echo_env [''prog'', ''AA3''] (''1 2'' @ newline # '' EXIT '' @ newline # ''3 4'')"] h
  have "exit_status (main (echo_env [''prog'', ''AA3''] (''1 2'' @ newline # '' EXIT '' @ newline # ''3 4''))) = EXIT_SUCCESS"
    by blast
  with h m t show ?thesis
    by blast
qed

subsection \<open>The session against the per-line responses\<close>

lemma session_loop_unlines_Nil: "session_loop f g s (unlines []) = ([Getline None], s, [])"
  by (simp add: unlines_Nil session_loop_eof)

lemma getline_last:
  assumes "newline \<notin> set raw" and "raw \<noteq> []"
  shows "getline raw = Some (raw, [])"
proof -
  have all: "\<forall>c\<in>set raw. c \<noteq> newline"
    using assms(1) by blast
  then have "takeWhile (\<lambda>c. c \<noteq> newline) raw = raw"
    by (simp add: takeWhile_eq_all_conv)
  moreover from all have "dropWhile (\<lambda>c. c \<noteq> newline) raw = []"
    by (simp add: dropWhile_eq_Nil_conv)
  ultimately show ?thesis
    using assms(2) by (simp add: getline_def del: dropWhile_eq_Nil_conv takeWhile_eq_all_conv)
qed

lemma session_responses_step:
  assumes "getline inp = Some (l, rest)"
    and "\<And>s'. couts (fst (session_loop f g s' rest)) = responses f g s' ls"
  shows "couts (fst (session_loop f g s inp)) = responses f g s (l # ls)"
proof (cases l rule: loop_body_cases [of _ f g s])
  case blank
  then have "blank l"
    by (simp add: trim_empty_iff)
  with blank show ?thesis
    using session_loop_step [OF assms(1), of f g s] assms(2) by simp
next
  case exit
  then have "\<not> blank l"
    using trim_empty_iff [of l] by auto
  with exit show ?thesis
    using session_loop_step [OF assms(1), of f g s] by simp
next
  case malformed
  then have "\<not> blank l"
    using trim_empty_iff [of l] by auto
  with malformed show ?thesis
    using session_loop_step [OF assms(1), of f g s] assms(2) by simp
next
  case (convert x y)
  then have "\<not> blank l"
    using trim_empty_iff [of l] by auto
  with convert show ?thesis
    using session_loop_step [OF assms(1), of f g s] assms(2) by simp
qed

lemma session_responses:
  assumes "\<forall>l\<in>set ls. newline \<notin> set l"
  shows "couts (fst (session_loop f g s (unlines ls))) = responses f g s ls"
  using assms
proof (induction ls arbitrary: s)
  case Nil
  show ?case by (simp add: session_loop_unlines_Nil)
next
  case (Cons l ls)
  then have nl: "newline \<notin> set l" and rest: "\<forall>l\<in>set ls. newline \<notin> set l"
    by simp_all
  show ?case
    unfolding unlines_Cons
    by (rule session_responses_step [OF getline_line [OF nl]]) (rule Cons.IH [OF rest])
qed

lemma unlines_eq_Nil: "unlines ls = [] \<longleftrightarrow> ls = []"
  by (cases ls) (simp_all add: unlines_Nil unlines_Cons)

lemma session_responses_open:
  assumes "\<forall>l\<in>set ls. newline \<notin> set l" and "ls \<noteq> []" and "last ls \<noteq> []"
  shows "couts (fst (session_loop f g s (butlast (unlines ls)))) = responses f g s ls"
  using assms
proof (induction ls arbitrary: s)
  case Nil
  then show ?case by simp
next
  case (Cons l ls)
  then have nl: "newline \<notin> set l" and rest: "\<forall>l\<in>set ls. newline \<notin> set l"
    by simp_all
  show ?case
  proof (cases "ls = []")
    case True
    with Cons.prems have ne: "l \<noteq> []"
      by simp
    have b: "butlast (unlines [l]) = l"
      by (simp add: unlines_Cons unlines_Nil butlast_append)
    have e: "\<And>s'. couts (fst (session_loop f g s' [])) = responses f g s' []"
      by (simp add: session_loop_eof)
    show ?thesis
      unfolding b True by (rule session_responses_step [OF getline_last [OF nl ne] e])
  next
    case False
    with Cons.prems have l: "last ls \<noteq> []"
      by simp
    have b: "butlast (unlines (l # ls)) = l @ newline # butlast (unlines ls)"
      using False by (simp add: unlines_Cons butlast_append unlines_eq_Nil)
    show ?thesis
      unfolding b
      by (rule session_responses_step [OF getline_line [OF nl]]) (rule Cons.IH [OF rest False l])
  qed
qed

lemma responses_length:
  "length (responses f g s ls) =
   length (filter (\<lambda>l. \<not> blank l) (takeWhile (\<lambda>l. trim l \<noteq> ''EXIT'') ls))"
proof (induction ls arbitrary: s)
  case Nil
  show ?case by simp
next
  case (Cons l ls)
  show ?case
  proof (cases "blank l")
    case True
    then have "trim l \<noteq> ''EXIT''"
      using trim_empty_iff [of l] by auto
    with True Cons show ?thesis by simp
  next
    case False
    with Cons show ?thesis
      by (auto split: option.splits)
  qed
qed

text \<open>
  C6. For every finite sequence of input lines (each ended by a newline, or all but a
  last non-empty one), the output after \<^verbatim>\<open>READY\<close> is exactly the sequence of the
  per-line responses, in the order of the input: a blank line gives no output line, a
  line that trims to \<^verbatim>\<open>EXIT\<close> ends the sequence, and every other line before it gives
  exactly one output line.
\<close>

theorem responses_in_order:
  assumes "session_entry E = Some (f_xy2lon, f_xy2lat, s)"
    and "\<forall>l\<in>set ls. newline \<notin> set l"
    and "cin E = unlines ls \<or> ls \<noteq> [] \<and> last ls \<noteq> [] \<and> cin E = butlast (unlines ls)"
  shows "couts (trace (main E)) = ''READY'' # responses f_xy2lon f_xy2lat s ls \<and>
         length (responses f_xy2lon f_xy2lat s ls) =
           length (filter (\<lambda>l. \<not> blank l) (takeWhile (\<lambda>l. trim l \<noteq> ''EXIT'') ls))"
proof -
  have "couts (fst (session_loop f_xy2lon f_xy2lat s (cin E))) = responses f_xy2lon f_xy2lat s ls"
    using assms(3) session_responses [OF assms(2), of f_xy2lon f_xy2lat s]
      session_responses_open [OF assms(2), of f_xy2lon f_xy2lat s] by auto
  then show ?thesis
    using responses_length [of f_xy2lon f_xy2lat s ls] by (simp add: main_session [OF assms(1)])
qed

theorem responses_in_order_witness:
  "session_entry (echo_env [''prog'', ''AA3''] (unlines [''1 2'', ''  '', ''abc'', ''4 5'', ''EXIT'', ''7 8''])) =
     Some (echo_lon, echo_lat, 0) \<and>
   cin (echo_env [''prog'', ''AA3''] (unlines [''1 2'', ''  '', ''abc'', ''4 5'', ''EXIT'', ''7 8''])) =
     unlines [''1 2'', ''  '', ''abc'', ''4 5'', ''EXIT'', ''7 8''] \<and>
   list_all (\<lambda>l. newline \<notin> set l) [''1 2'', ''  '', ''abc'', ''4 5'', ''EXIT'', ''7 8''] \<and>
   couts (trace (main (echo_env [''prog'', ''AA3''] (unlines [''1 2'', ''  '', ''abc'', ''4 5'', ''EXIT'', ''7 8''])))) =
     [''READY'', ''1.00000000,2.00000000'', ''ERROR: Invalid input format'', ''4.00000000,5.00000000'']"
proof -
  define ls where "ls = [''1 2'', ''  '', ''abc'', ''4 5'', ''EXIT'', ''7 8'']"
  have h1: "session_entry (echo_env [''prog'', ''AA3''] (unlines ls)) = Some (echo_lon, echo_lat, 0)"
    by (simp add: session_entry_def startup_failure_def echo_env_def echo_module_def echo_init_def
        ERROR_SUCCESS_def)
  have h2: "cin (echo_env [''prog'', ''AA3''] (unlines ls)) = unlines ls"
    by (simp add: echo_env_def)
  have h3: "\<forall>l\<in>set ls. newline \<notin> set l"
    unfolding ls_def by code_simp
  have r: "responses echo_lon echo_lat 0 ls =
     [''1.00000000,2.00000000'', ''ERROR: Invalid input format'', ''4.00000000,5.00000000'']"
    unfolding ls_def by code_simp
  from responses_in_order [OF h1 h3 disjI1 [OF h2]]
  have "couts (trace (main (echo_env [''prog'', ''AA3''] (unlines ls)))) =
        ''READY'' # responses echo_lon echo_lat 0 ls"
    by (rule conjunct1)
  then have "couts (trace (main (echo_env [''prog'', ''AA3''] (unlines ls)))) =
     [''READY'', ''1.00000000,2.00000000'', ''ERROR: Invalid input format'', ''4.00000000,5.00000000'']"
    by (simp only: r)
  moreover have "list_all (\<lambda>l. newline \<notin> set l) ls"
    using h3 by (simp add: list_all_iff)
  ultimately show ?thesis
    using h1 h2 unfolding ls_def by (intro conjI)
qed

text \<open>
  The program trims four characters only. A line that holds nothing but a vertical tab
  or a form feed is not blank in this sense: it reaches the extraction, which skips it
  as white space, finds no number and reports the line as malformed.
\<close>

lemma vertical_tab_line:
  "\<not> blank [CHR 0x0B] \<and> isspace (CHR 0x0B) \<and>
   loop_body echo_lon echo_lat 0 [CHR 0x0B] = (Continue, [Cout ''ERROR: Invalid input format''], 0)"
  by code_simp

subsection \<open>Pure entry points\<close>

lemma responses_pure:
  assumes "pure_entry f" and "pure_entry g"
  shows "responses f g s ls = responses f g s' ls"
proof (induction ls arbitrary: s s')
  case Nil
  show ?case by simp
next
  case (Cons l ls)
  have f: "\<And>x y. fst (f x y s) = fst (f x y s')"
    using assms(1) by (simp add: pure_entry_def)
  have g: "\<And>x y. fst (g x y (snd (f x y s))) = fst (g x y (snd (f x y s')))"
    using assms(2) by (simp add: pure_entry_def)
  show ?case
    using Cons [of s s'] f g
      Cons [of "snd (g _ _ (snd (f _ _ s)))" "snd (g _ _ (snd (f _ _ s')))"]
    by (auto split: option.splits)
qed

lemma responses_append_pure:
  assumes "pure_entry f" and "pure_entry g" and "\<forall>l\<in>set a. trim l \<noteq> ''EXIT''"
  shows "responses f g s (a @ b) = responses f g s a @ responses f g s b"
  using assms(3)
proof (induction a arbitrary: s)
  case Nil
  show ?case by simp
next
  case (Cons l a)
  then have ih: "\<And>s. responses f g s (a @ b) = responses f g s a @ responses f g s b"
    and nx: "trim l \<noteq> ''EXIT''"
    by simp_all
  have move: "\<And>s'. responses f g s' b = responses f g s b"
    by (rule responses_pure [OF assms(1,2)])
  show ?case
    using nx ih move by (auto split: option.splits)
qed

lemma extract_xy_Some_trim:
  assumes "extract_xy (trim raw) = Some (x, y)"
  shows "trim raw \<noteq> []" and "trim raw \<noteq> ''EXIT''"
  using assms extract_xy_Nil extract_xy_EXIT by auto

lemma responses_convert_pure:
  assumes "pure_entry f" and "pure_entry g" and "extract_xy (trim l) = Some (x, y)"
  shows "responses f g s' (l # ls) =
         (put_fixed 8 (fst (f x y s)) @ '','' @ put_fixed 8 (fst (g x y s))) # responses f g s ls"
proof -
  note t = extract_xy_Some_trim [OF assms(3)]
  have nb: "\<not> blank l"
    using t(1) trim_empty_iff [of l] by simp
  have f: "fst (f x y s') = fst (f x y s)"
    using assms(1) by (simp add: pure_entry_def)
  have g: "fst (g x y (snd (f x y s'))) = fst (g x y s)"
    using assms(2) by (simp add: pure_entry_def)
  show ?thesis
    using nb t assms(3) f g responses_pure [OF assms(1,2), of _ ls s] by simp
qed

text \<open>
  C7. When the two conversion functions are pure, two request lines that carry the
  same pair \<open>(x, y)\<close> are answered by the same output line, whatever the state of the
  library when each is handled. In a session whose input has the first line after the
  lines \<open>pre\<close> and the second after the further lines \<open>mid\<close>, none of which is
  \<^verbatim>\<open>EXIT\<close>, the output is the responses to \<open>pre\<close>, that line, the responses to \<open>mid\<close>,
  the same line again, and the responses to the rest.
\<close>

theorem repeated_request_same_output:
  assumes "pure_entry f_xy2lon" and "pure_entry f_xy2lat"
    and "extract_xy (trim l1) = Some (x, y)" and "extract_xy (trim l2) = Some (x, y)"
    and "\<forall>l\<in>set (pre @ mid). trim l \<noteq> ''EXIT''"
    and "\<forall>l\<in>set (pre @ l1 # mid @ l2 # post). newline \<notin> set l"
  shows "couts (fst (snd (loop_body f_xy2lon f_xy2lat s1 l1))) =
           couts (fst (snd (loop_body f_xy2lon f_xy2lat s2 l2))) \<and>
         couts (fst (snd (loop_body f_xy2lon f_xy2lat s1 l1))) =
           [put_fixed 8 (fst (f_xy2lon x y s)) @ '','' @ put_fixed 8 (fst (f_xy2lat x y s))] \<and>
         couts (fst (session_loop f_xy2lon f_xy2lat s (unlines (pre @ l1 # mid @ l2 # post)))) =
           responses f_xy2lon f_xy2lat s pre @
           (put_fixed 8 (fst (f_xy2lon x y s)) @ '','' @ put_fixed 8 (fst (f_xy2lat x y s))) #
           responses f_xy2lon f_xy2lat s mid @
           (put_fixed 8 (fst (f_xy2lon x y s)) @ '','' @ put_fixed 8 (fst (f_xy2lat x y s))) #
           responses f_xy2lon f_xy2lat s post"
proof -
  let ?r = "put_fixed 8 (fst (f_xy2lon x y s)) @ '','' @ put_fixed 8 (fst (f_xy2lat x y s))"
  have line: "couts (fst (snd (loop_body f_xy2lon f_xy2lat s' l))) = [?r]"
    if "extract_xy (trim l) = Some (x, y)" for s' l
  proof -
    note t = extract_xy_Some_trim [OF that]
    have "fst (f_xy2lon x y s') = fst (f_xy2lon x y s)"
      using assms(1) by (simp add: pure_entry_def)
    moreover have "fst (f_xy2lat x y (snd (f_xy2lon x y s'))) = fst (f_xy2lat x y s)"
      using assms(2) by (simp add: pure_entry_def)
    ultimately show ?thesis
      using loop_body_convert [OF t that, of f_xy2lon f_xy2lat s'] by simp
  qed
  have pre: "\<forall>l\<in>set pre. trim l \<noteq> ''EXIT''" and mid: "\<forall>l\<in>set mid. trim l \<noteq> ''EXIT''"
    using assms(5) by simp_all
  have "responses f_xy2lon f_xy2lat s (pre @ l1 # mid @ l2 # post) =
        responses f_xy2lon f_xy2lat s pre @ responses f_xy2lon f_xy2lat s (l1 # mid @ l2 # post)"
    by (rule responses_append_pure [OF assms(1,2) pre])
  also have "responses f_xy2lon f_xy2lat s (l1 # mid @ l2 # post) =
        ?r # responses f_xy2lon f_xy2lat s (mid @ l2 # post)"
    by (rule responses_convert_pure [OF assms(1,2,3)])
  also have "responses f_xy2lon f_xy2lat s (mid @ l2 # post) =
        responses f_xy2lon f_xy2lat s mid @ responses f_xy2lon f_xy2lat s (l2 # post)"
    by (rule responses_append_pure [OF assms(1,2) mid])
  also have "responses f_xy2lon f_xy2lat s (l2 # post) = ?r # responses f_xy2lon f_xy2lat s post"
    by (rule responses_convert_pure [OF assms(1,2,4)])
  finally have "responses f_xy2lon f_xy2lat s (pre @ l1 # mid @ l2 # post) =
        responses f_xy2lon f_xy2lat s pre @ ?r # responses f_xy2lon f_xy2lat s mid @
        ?r # responses f_xy2lon f_xy2lat s post" .
  then have "couts (fst (session_loop f_xy2lon f_xy2lat s (unlines (pre @ l1 # mid @ l2 # post)))) =
        responses f_xy2lon f_xy2lat s pre @ ?r # responses f_xy2lon f_xy2lat s mid @
        ?r # responses f_xy2lon f_xy2lat s post"
    using session_responses [OF assms(6), of f_xy2lon f_xy2lat s] by simp
  then show ?thesis
    using line [OF assms(3), of s1] line [OF assms(4), of s2] by simp
qed

theorem repeated_request_same_output_witness:
  "pure_entry echo_lon \<and> pure_entry echo_lat \<and>
   extract_xy (trim ''1 2'') = Some (0x3F800000, 0x40000000) \<and>
   extract_xy (trim '' 1.0  2e0 x'') = Some (0x3F800000, 0x40000000) \<and>
   list_all (\<lambda>l. trim l \<noteq> ''EXIT'') ([''5 6''] @ [''abc'']) \<and>
   list_all (\<lambda>l. newline \<notin> set l) ([''5 6''] @ ''1 2'' # [''abc''] @ '' 1.0  2e0 x'' # [''EXIT'']) \<and>
   couts (fst (session_loop echo_lon echo_lat 0
            (unlines ([''5 6''] @ ''1 2'' # [''abc''] @ '' 1.0  2e0 x'' # [''EXIT''])))) =
     [''5.00000000,6.00000000'', ''1.00000000,2.00000000'', ''ERROR: Invalid input format'',
      ''1.00000000,2.00000000'']"
proof -
  have p1: "pure_entry echo_lon"
    by (simp add: pure_entry_def echo_lon_def)
  have p2: "pure_entry echo_lat"
    by (simp add: pure_entry_def echo_lat_def)
  have e1: "extract_xy (trim ''1 2'') = Some (0x3F800000, 0x40000000)"
    by code_simp
  have e2: "extract_xy (trim '' 1.0  2e0 x'') = Some (0x3F800000, 0x40000000)"
    by code_simp
  have x: "list_all (\<lambda>l. trim l \<noteq> ''EXIT'') ([''5 6''] @ [''abc''])"
    by code_simp
  have n: "list_all (\<lambda>l. newline \<notin> set l) ([''5 6''] @ ''1 2'' # [''abc''] @ '' 1.0  2e0 x'' # [''EXIT''])"
    by code_simp
  have x': "\<forall>l\<in>set ([''5 6''] @ [''abc'']). trim l \<noteq> ''EXIT''"
    using x unfolding list_all_iff .
  have n': "\<forall>l\<in>set ([''5 6''] @ ''1 2'' # [''abc''] @ '' 1.0  2e0 x'' # [''EXIT'']). newline \<notin> set l"
    using n unfolding list_all_iff .
  have r1: "responses echo_lon echo_lat 0 [''5 6''] = [''5.00000000,6.00000000'']"
    by code_simp
  have r2: "responses echo_lon echo_lat 0 [''abc''] = [''ERROR: Invalid input format'']"
    by code_simp
  have r3: "responses echo_lon echo_lat 0 [''EXIT''] = []"
    by code_simp
  have r: "put_fixed 8 (fst (echo_lon 0x3F800000 0x40000000 0)) @ '','' @
           put_fixed 8 (fst (echo_lat 0x3F800000 0x40000000 0)) = ''1.00000000,2.00000000''"
    by code_simp
  from repeated_request_same_output [OF p1 p2 e1 e2 x' n', of 0 0 0]
  have "couts (fst (session_loop echo_lon echo_lat 0
            (unlines ([''5 6''] @ ''1 2'' # [''abc''] @ '' 1.0  2e0 x'' # [''EXIT''])))) =
     [''5.00000000,6.00000000'', ''1.00000000,2.00000000'', ''ERROR: Invalid input format'',
      ''1.00000000,2.00000000'']"
    unfolding r1 r2 r3 r by simp
  with p1 p2 e1 e2 x n show ?thesis
    by (intro conjI)
qed

subsection \<open>What a run depends on\<close>

text \<open>
  C10. The run is a function of what the program observes. Two runs give the same
  result (exit status, standard output and standard error in order, unread input)
  whenever they agree on the argument count, on the terrain file that the argument
  resolves to, on the registry value read, on the library found at the resolved path
  with its initial state, and on standard input. They may differ in everything else:
  the program name, the spelling of the argument, the rest of the registry, what the
  loader would return for other paths.
\<close>

theorem run_determined_by_observations:
  assumes "length (argv E1) = length (argv E2)"
    and "length (argv E1) = 2 \<longrightarrow> trn_name E1 = trn_name E2"
    and "RegGetValueA E1 (''Software'' @ [backslash] @ ''Condor3'') ''InstallDir'' =
         RegGetValueA E2 (''Software'' @ [backslash] @ ''Condor3'') ''InstallDir''"
    and "LoadLibraryA E1 (dll_path E1) = LoadLibraryA E2 (dll_path E2)"
    and "loaded_state E1 = loaded_state E2"
    and "cin E1 = cin E2"
  shows "main E1 = main E2 \<and>
         couts (trace (main E1)) = couts (trace (main E2)) \<and>
         exit_status (main E1) = exit_status (main E2)"
proof -
  have dll: "dll_path E1 = dll_path E2"
    using assms(3) by (simp add: dll_path_def root_dir_def)
  have "main E1 = main E2"
  proof (cases "length (argv E1) = 2")
    case False
    with assms(1) have "length (argv E2) \<noteq> 2"
      by simp
    with False show ?thesis
      using assms(5,6) by (simp add: main_def failure_def)
  next
    case True
    with assms(1,2) have a2: "length (argv E2) = 2" and trn: "trn_name E1 = trn_name E2"
      by simp_all
    have d2: "dll_path E2 = dll_path E1"
      using dll by simp
    have t2: "trn_name E2 = trn_name E1"
      using trn by simp
    have r2: "RegGetValueA E2 (''Software'' @ [backslash] @ ''Condor3'') ''InstallDir'' =
              RegGetValueA E1 (''Software'' @ [backslash] @ ''Condor3'') ''InstallDir''"
      using assms(3) by simp
    have l2: "LoadLibraryA E2 (dll_path E1) = LoadLibraryA E1 (dll_path E1)"
      using assms(4) dll by simp
    have s2: "loaded_state E2 = loaded_state E1"
      using assms(5) by simp
    have c2: "cin E2 = cin E1"
      using assms(6) by simp
    show ?thesis
      unfolding main_def failure_def d2 t2 r2 l2 s2 c2
      using True a2 by simp
  qed
  then show ?thesis
    by simp
qed

theorem run_determined_by_observations_witness:
  "argv (echo_env [''a.exe'', ''AA3''] ''1 2'') \<noteq>
   argv (echo_env [''b.exe'', ''C:'' @ [backslash] @ ''Condor3'' @ [backslash] @ ''Landscapes'' @
                    [backslash] @ ''AA3'' @ [backslash] @ ''AA3.trn''] ''1 2'') \<and>
   trn_name (echo_env [''a.exe'', ''AA3''] ''1 2'') =
   trn_name (echo_env [''b.exe'', ''C:'' @ [backslash] @ ''Condor3'' @ [backslash] @ ''Landscapes'' @
                    [backslash] @ ''AA3'' @ [backslash] @ ''AA3.trn''] ''1 2'') \<and>
   main (echo_env [''a.exe'', ''AA3''] ''1 2'') =
   main (echo_env [''b.exe'', ''C:'' @ [backslash] @ ''Condor3'' @ [backslash] @ ''Landscapes'' @
                    [backslash] @ ''AA3'' @ [backslash] @ ''AA3.trn''] ''1 2'') \<and>
   couts (trace (main (echo_env [''a.exe'', ''AA3''] ''1 2''))) = [''READY'', ''1.00000000,2.00000000''] \<and>
   exit_status (main (echo_env [''a.exe'', ''AA3''] ''1 2'')) = 0"
proof -
  define E1 where "E1 = echo_env [''a.exe'', ''AA3''] ''1 2''"
  define E2 where "E2 = echo_env [''b.exe'', ''C:'' @ [backslash] @ ''Condor3'' @ [backslash] @
                    ''Landscapes'' @ [backslash] @ ''AA3'' @ [backslash] @ ''AA3.trn''] ''1 2''"
  have d: "argv E1 \<noteq> argv E2"
    unfolding E1_def E2_def by (simp add: echo_env_def)
  have h1: "length (argv E1) = length (argv E2)"
    unfolding E1_def E2_def by (simp add: echo_env_def)
  have t: "trn_name E1 = trn_name E2"
    unfolding E1_def E2_def by code_simp
  then have h2: "length (argv E1) = 2 \<longrightarrow> trn_name E1 = trn_name E2"
    by simp
  have h3: "RegGetValueA E1 (''Software'' @ [backslash] @ ''Condor3'') ''InstallDir'' =
            RegGetValueA E2 (''Software'' @ [backslash] @ ''Condor3'') ''InstallDir''"
    unfolding E1_def E2_def by (simp add: echo_env_def)
  have h4: "LoadLibraryA E1 (dll_path E1) = LoadLibraryA E2 (dll_path E2)"
    unfolding E1_def E2_def by (simp add: echo_env_def)
  have h5: "loaded_state E1 = loaded_state E2"
    unfolding E1_def E2_def by (simp add: echo_env_def)
  have h6: "cin E1 = cin E2"
    unfolding E1_def E2_def by (simp add: echo_env_def)
  have c: "couts (trace (main E1)) = [''READY'', ''1.00000000,2.00000000'']"
    unfolding E1_def by code_simp
  have x: "exit_status (main E1) = 0"
    unfolding E1_def by code_simp
  from run_determined_by_observations [OF h1 h2 h3 h4 h5 h6]
  have "main E1 = main E2"
    by (rule conjunct1)
  with d t c x show ?thesis
    unfolding E1_def E2_def by (intro conjI)
qed

end
